theory Spec2Isabelle
  imports Complex_Main
begin

section \<open>The stochastic actor (5.PPO-continuous/nn/cnn_actor.py)\<close>

text \<open>
  Tensors are two-dimensional here: a batch is a list of rows and a row has one entry per
  action dimension. Floating-point numbers are modelled by the reals, so rounding, overflow
  and NaN are outside the model.
\<close>

type_synonym tensor = "real list list"

definition t_map :: "(real \<Rightarrow> real) \<Rightarrow> tensor \<Rightarrow> tensor" where
  "t_map f t = map (map f) t"

definition t_map2 :: "(real \<Rightarrow> real \<Rightarrow> real) \<Rightarrow> tensor \<Rightarrow> tensor \<Rightarrow> tensor" where
  "t_map2 f a b = map2 (map2 f) a b"

text \<open>\<^verbatim>\<open>t.sum(1, keepdim=True)\<close>: every row is replaced by the one-entry row of its sum.\<close>

definition sum_dim1_keepdim :: "tensor \<Rightarrow> tensor" where
  "sum_dim1_keepdim t = map (\<lambda>row. [sum_list row]) t"

text \<open>\<^verbatim>\<open>torch.clamp(x, lo, hi)\<close> on one entry.\<close>

definition clamp :: "real \<Rightarrow> real \<Rightarrow> real \<Rightarrow> real" where
  "clamp x lo hi = min (max x lo) hi"

text \<open>
  \<^verbatim>\<open>nn.Linear(latent, action_dim)\<close>: a weight matrix with one row per output and a bias
  vector; applied to one latent row it gives \<open>W x + b\<close>.
\<close>

record linear =
  weight :: "real list list"
  bias :: "real list"

definition linear_row :: "linear \<Rightarrow> real list \<Rightarrow> real list" where
  "linear_row l x = map2 (\<lambda>w b. sum_list (map2 (*) w x) + b) (weight l) (bias l)"

definition Linear :: "linear \<Rightarrow> tensor \<Rightarrow> tensor" where
  "Linear l x = map (linear_row l) x"

text \<open>
  \<^verbatim>\<open>torch.distributions.Normal(loc, scale)\<close>. \<open>rsample\<close> is the reparameterised draw
  \<open>loc + eps * scale\<close>; the standard-normal noise \<open>eps\<close> that the generator produces is an
  argument of the model. \<open>log_prob\<close> is the library's formula.
\<close>

record normal =
  loc :: tensor
  scale :: tensor

definition Normal :: "tensor \<Rightarrow> tensor \<Rightarrow> normal" where
  "Normal mu sd = \<lparr>loc = mu, scale = sd\<rparr>"

definition rsample :: "normal \<Rightarrow> tensor \<Rightarrow> tensor" where
  "rsample distr eps = t_map2 (+) (loc distr) (t_map2 (*) eps (scale distr))"

definition log_prob_entry :: "real \<Rightarrow> real \<Rightarrow> real \<Rightarrow> real" where
  "log_prob_entry m sg v = - ((v - m)\<^sup>2) / (2 * sg\<^sup>2) - ln sg - ln (sqrt (2 * pi))"

definition log_prob :: "normal \<Rightarrow> tensor \<Rightarrow> tensor" where
  "log_prob distr v =
     map2 (\<lambda>(ms, sgs) vs. map2 (\<lambda>(m, sg) x. log_prob_entry m sg x) (zip ms sgs) vs)
       (zip (loc distr) (scale distr)) v"

text \<open>
  \<open>Stochastic_Actor\<close>. The chain \<^verbatim>\<open>normalize_state\<close>, \<^verbatim>\<open>cnn_base\<close>, \<^verbatim>\<open>_base_forward\<close> belongs to
  the base classes, which are not part of the sources at hand: it is the field \<open>base\<close>, from
  the state and the \<open>update\<close> flag to the batch of latent rows. \<open>log_stds\<close> is read only when
  \<open>fixed_std\<close> is \<open>None\<close>, as in the constructor. A fixed standard deviation has one entry per
  action dimension and is broadcast over the rows of the batch.
\<close>

record 'st Stochastic_Actor =
  action_dim :: nat
  base :: "'st \<Rightarrow> bool \<Rightarrow> tensor"
  means :: linear
  bounded :: bool
  log_stds :: linear
  fixed_std :: "real list option"

definition get_dist_params :: "'st Stochastic_Actor \<Rightarrow> 'st \<Rightarrow> bool \<Rightarrow> tensor \<times> tensor" where
  "get_dist_params self state update =
     (let x = base self state update;
          mu = Linear (means self) x;
          std = (case fixed_std self of
                   None \<Rightarrow> t_map exp (t_map (\<lambda>v. clamp v (- 2) 1) (Linear (log_stds self) x))
                 | Some fs \<Rightarrow> map (\<lambda>_. fs) mu)
      in (mu, std))"

text \<open>
  \<open>stochastic_forward\<close> returns the action alone, or the action with the summed
  log-probabilities, depending on \<open>log_probs\<close>. \<open>sample\<close> is bound in the source only when
  \<open>not deterministic or log_probs\<close> holds, and it is read only on those paths.
\<close>

datatype forward_result = Action tensor | Action_log_prob tensor tensor

definition stochastic_forward ::
  "'st Stochastic_Actor \<Rightarrow> 'st \<Rightarrow> bool \<Rightarrow> bool \<Rightarrow> bool \<Rightarrow> tensor \<Rightarrow> forward_result" where
  "stochastic_forward self state deterministic update log_probs eps =
     (let (mu, sd) = get_dist_params self state update;
          distr = Normal mu sd;
          sample = rsample distr eps;
          action = (if bounded self
                    then (if deterministic then t_map tanh mu else t_map tanh sample)
                    else (if deterministic then mu else sample))
      in if log_probs
         then (let lp = log_prob distr sample;
                   lp = (if bounded self
                         then t_map2 (-) lp (t_map (\<lambda>x. ln ((1 - (tanh x)\<^sup>2) + 1 / 10 ^ 6)) sample)
                         else lp)
               in Action_log_prob action (sum_dim1_keepdim lp))
         else Action action)"

section \<open>The training loop (4.PPO-discrete/PPO_discrete_main.py)\<close>

type_synonym vec = "real list"

subsection \<open>Collaborators that are not part of the sources at hand\<close>

text \<open>
  Modelled from the spec: the running statistics of \<^verbatim>\<open>normalization.py\<close> (spec 3 and 4.1),
  one triple (running mean, running variance, sample count) per dimension. An update
  does count \<open>\<leftarrow>\<close> count + 1, delta \<open>\<leftarrow>\<close> x - mean, mean \<open>\<leftarrow>\<close> mean + delta / count, and the
  incremental variance from delta and the new mean.
\<close>

record running_stat =
  running_mean :: real
  running_variance :: real
  sample_count :: nat

definition stat_update :: "running_stat \<Rightarrow> real \<Rightarrow> running_stat" where
  "stat_update st x =
     (let n = sample_count st + 1;
          delta = x - running_mean st;
          mean' = running_mean st + delta / real n;
          var' = (running_variance st * real (sample_count st) + delta * (x - mean')) / real n
      in \<lparr>running_mean = mean', running_variance = var', sample_count = n\<rparr>)"

text \<open>Modelled from the spec: the epsilon that keeps the division away from zero
  (spec 4.4, "1e-5 to 1e-8 range").\<close>

definition norm_eps :: real where
  "norm_eps = 1 / 10 ^ 8"

text \<open>Modelled from the spec: the read-only application, "subtract mean, divide by
  sqrt(variance+eps)" (spec 3).\<close>

definition stat_normalize :: "running_stat \<Rightarrow> real \<Rightarrow> real" where
  "stat_normalize st x = (x - running_mean st) / sqrt (running_variance st + norm_eps)"

text \<open>
  Modelled from the spec: \<^verbatim>\<open>Normalization.__call__(x, update)\<close>, the contract
  \<open>apply(vector, update)\<close> of spec 4.1. With \<open>update\<close> the vector is incorporated first and the
  post-update statistics normalize it; without, the current statistics normalize it and are
  not mutated. \<open>Normalization shape\<close> is the constructor.
\<close>

type_synonym normalization = "running_stat list"

definition Normalization :: "nat \<Rightarrow> normalization" where
  "Normalization shape =
     replicate shape \<lparr>running_mean = 0, running_variance = 0, sample_count = 0\<rparr>"

definition Normalization_call :: "normalization \<Rightarrow> vec \<Rightarrow> bool \<Rightarrow> vec \<times> normalization" where
  "Normalization_call nz x update =
     (if update
      then (let nz' = map2 stat_update nz x in (map2 stat_normalize nz' x, nz'))
      else (map2 stat_normalize nz x, nz))"

text \<open>Modelled from the spec: the same contract on a scalar, for \<^verbatim>\<open>Normalization(shape=1)\<close>
  applied to a reward.\<close>

definition Normalization_call1 :: "running_stat \<Rightarrow> real \<Rightarrow> bool \<Rightarrow> real \<times> running_stat" where
  "Normalization_call1 st x update =
     (if update
      then (let st' = stat_update st x in (stat_normalize st' x, st'))
      else (stat_normalize st x, st))"

text \<open>
  Modelled from the spec: \<^verbatim>\<open>RewardScaling\<close> (spec 4.2). It keeps the discounted return
  \<open>R \<leftarrow> gamma * R + reward\<close> and running statistics of \<open>R\<close>; the output is
  \<open>reward / (sqrt(running_variance) + eps)\<close>. \<open>reset\<close> zeroes \<open>R\<close> only.
\<close>

record reward_scaling_state =
  rs_gamma :: real
  R :: real
  running_ms :: running_stat

definition RewardScaling :: "real \<Rightarrow> reward_scaling_state" where
  "RewardScaling g =
     \<lparr>rs_gamma = g, R = 0,
      running_ms = \<lparr>running_mean = 0, running_variance = 0, sample_count = 0\<rparr>\<rparr>"

definition RewardScaling_call :: "reward_scaling_state \<Rightarrow> real \<Rightarrow> real \<times> reward_scaling_state" where
  "RewardScaling_call rs x =
     (let R' = rs_gamma rs * R rs + x;
          ms' = stat_update (running_ms rs) R'
      in (x / (sqrt (running_variance ms') + norm_eps), rs\<lparr>R := R', running_ms := ms'\<rparr>))"

definition RewardScaling_reset :: "reward_scaling_state \<Rightarrow> reward_scaling_state" where
  "RewardScaling_reset rs = rs\<lparr>R := 0\<rparr>"

text \<open>The exceptions the loop can raise.\<close>

datatype error = UnboundLocalError | Buffer_full

text \<open>
  Modelled from the spec: \<^verbatim>\<open>ReplayBuffer\<close> (spec 3 and 4.3), a store of capacity
  \<open>batch_size\<close> with a \<open>count\<close>; \<open>store\<close> appends at position \<open>count\<close> and fails when the
  buffer is already at capacity.
\<close>

record 'a transition =
  tr_s :: vec
  tr_a :: 'a
  tr_a_logprob :: real
  tr_r :: real
  tr_s_next :: vec
  tr_dw :: bool
  tr_done :: bool

record 'a buffer =
  capacity :: nat
  items :: "'a transition list"
  count :: nat

definition ReplayBuffer :: "nat \<Rightarrow> 'a buffer" where
  "ReplayBuffer n = \<lparr>capacity = n, items = [], count = 0\<rparr>"

definition store :: "'a buffer \<Rightarrow> 'a transition \<Rightarrow> error + 'a buffer" where
  "store b t =
     (if capacity b \<le> count b then Inl Buffer_full
      else Inr (b\<lparr>items := take (count b) (items b) @ [t], count := count b + 1\<rparr>))"

text \<open>
  The environment (gym) and the agent (\<^verbatim>\<open>PPO_discrete\<close> of \<^verbatim>\<open>ppo_discrete.py\<close>, which is not
  part of the sources at hand) are arguments of the model: the environment's state is \<open>'e\<close>,
  the agent's (networks, optimizers, random generator) is \<open>'g\<close>, an action is \<open>'a\<close> and a
  state dictionary is \<open>'p\<close>. \<open>choose_action\<close> and \<open>update\<close> return the agent's new state;
  \<open>evaluate\<close> and the state dictionaries only read it.
\<close>

record ('e, 'g, 'a, 'p) ops =
  env_reset :: "'e \<Rightarrow> vec \<times> 'e"
  env_step :: "'e \<Rightarrow> 'a \<Rightarrow> (vec \<times> real \<times> bool) \<times> 'e"
  PPO_choose_action :: "'g \<Rightarrow> vec \<Rightarrow> ('a \<times> real) \<times> 'g"
  PPO_evaluate :: "'g \<Rightarrow> vec \<Rightarrow> 'a"
  PPO_update :: "'g \<Rightarrow> 'a buffer \<Rightarrow> int \<Rightarrow> (real \<times> real) \<times> 'g"
  actor_state_dict :: "'g \<Rightarrow> 'p"
  critic_state_dict :: "'g \<Rightarrow> 'p"
  optimizer_actor_state_dict :: "'g \<Rightarrow> 'p"
  optimizer_critic_state_dict :: "'g \<Rightarrow> 'p"

text \<open>
  The options that \<open>main\<close> and \<open>evaluate_policy\<close> read. \<open>state_dim\<close> and \<open>max_episode_steps\<close>
  are the values that lines 55 and 57 take from the environment; \<open>batch_size\<close> is the
  capacity of the buffer, a number of transitions.
\<close>

record args =
  max_train_steps :: int
  evaluate_freq :: real
  batch_size :: nat
  gamma :: real
  use_state_norm :: bool
  use_reward_norm :: bool
  use_reward_scaling :: bool
  state_dim :: nat
  max_episode_steps :: int

subsection \<open>\<open>evaluate_policy\<close>\<close>

text \<open>
  The \<^verbatim>\<open>while not done\<close> loop of one evaluation episode (lines 28 to 35). It ends only when
  the environment reports \<open>done\<close>, so it is a partial function: \<open>None\<close> is the run that
  never returns. The normalizer is threaded through, as the loop holds a reference to it.
\<close>

partial_function (option) evaluate_episode ::
  "('e \<Rightarrow> 'a \<Rightarrow> (vec \<times> real \<times> bool) \<times> 'e) \<Rightarrow> ('g \<Rightarrow> vec \<Rightarrow> 'a) \<Rightarrow> bool \<Rightarrow> 'g \<Rightarrow>
   normalization \<Rightarrow> 'e \<Rightarrow> vec \<Rightarrow> bool \<Rightarrow> real \<Rightarrow> int \<Rightarrow> (real \<times> int \<times> normalization \<times> 'e) option" where
  "evaluate_episode step_env evaluate_agent use_norm agent nz e s done episode_reward episode_length =
     (if \<not> done
      then (let a = evaluate_agent agent s;
                ((s_next, r, done'), e') = step_env e a;
                (s_next, nz') = (if use_norm then Normalization_call nz s_next False else (s_next, nz))
            in evaluate_episode step_env evaluate_agent use_norm agent nz' e' s_next done'
                 (episode_reward + r) (episode_length + 1))
      else Some (episode_reward, episode_length, nz, e))"

text \<open>
  The \<^verbatim>\<open>for _ in range(epochs)\<close> loop (lines 21 to 37), with the number of epochs still to
  run, and \<open>evaluate_policy\<close> with \<open>epochs = 3\<close>. The results are the mean reward and the mean
  length; the normalizer and the evaluation environment are returned with them.
\<close>

fun evaluate_epochs ::
  "('e, 'g, 'a, 'p) ops \<Rightarrow> args \<Rightarrow> 'g \<Rightarrow> nat \<Rightarrow> normalization \<Rightarrow> 'e \<Rightarrow> real \<Rightarrow> int \<Rightarrow>
   (real \<times> int \<times> normalization \<times> 'e) option" where
  "evaluate_epochs ops args agent 0 nz e reward len = Some (reward, len, nz, e)"
| "evaluate_epochs ops args agent (Suc k) nz e reward len =
     (let (s, e1) = env_reset ops e;
          (s, nz1) = (if use_state_norm args then Normalization_call nz s False else (s, nz))
      in case evaluate_episode (env_step ops) (PPO_evaluate ops) (use_state_norm args)
                agent nz1 e1 s False 0 0 of
           None \<Rightarrow> None
         | Some (episode_reward, episode_length, nz2, e2) \<Rightarrow>
             evaluate_epochs ops args agent k nz2 e2
               (reward + episode_reward) (len + episode_length))"

definition evaluate_policy ::
  "('e, 'g, 'a, 'p) ops \<Rightarrow> args \<Rightarrow> 'e \<Rightarrow> 'g \<Rightarrow> normalization \<Rightarrow>
   ((real \<times> real) \<times> normalization \<times> 'e) option" where
  "evaluate_policy ops args e agent nz =
     (case evaluate_epochs ops args agent 3 nz e 0 0 of
        None \<Rightarrow> None
      | Some (reward, len, nz', e') \<Rightarrow> Some ((reward / 3, real_of_int len / 3), nz', e'))"

subsection \<open>\<open>main\<close>\<close>

text \<open>
  What the loop does to the world outside it is kept in a journal, in the order of the
  calls: the reset of the reward scaling, the reward transformation applied, the transition
  stored (with the value of \<open>episode_steps\<close> at that moment), the call of \<open>agent.update\<close> (with
  \<open>total_steps\<close>), and the two files written by \<^verbatim>\<open>torch.save\<close>. The records sent to the logging
  collaborator and the progress bar are left out.
\<close>

record 'p checkpoint =
  ckpt_total_steps :: int
  ckpt_actor_state_dict :: 'p
  ckpt_critic_state_dict :: 'p
  ckpt_optimizer_actor_state_dict :: 'p
  ckpt_optimizer_critic_state_dict :: 'p

datatype ('a, 'p) event =
    Scaling_reset
  | Reward_normalized
  | Reward_scaled
  | Stored "'a transition" int
  | Updated int
  | Saved_model 'p
  | Saved_checkpoint "'p checkpoint"

text \<open>
  The control points of \<open>main\<close>: the test of the outer loop (line 87), the test of the inner
  loop (line 96), the test of the buffer (line 124), the test of the evaluation interval
  (line 137), the return, an exception, and an evaluation that never returns.
\<close>

datatype pc = Outer_test | Inner_test | Update_test | Evaluate_test | Returned | Raised error | Hung

text \<open>
  The local variables of \<open>main\<close>. \<open>reward_norm\<close> and \<open>reward_scaling\<close> are \<open>None\<close> while the name
  is unbound; \<open>max_reward\<close> is \<open>None\<close> for \<^verbatim>\<open>float('-inf')\<close>; \<open>cur_s\<close> is the local \<open>s\<close> and
  \<open>cur_done\<close> the local \<open>done\<close>.
\<close>

record ('e, 'g, 'a, 'p) main_state =
  pc :: pc
  env :: 'e
  env_evaluate :: 'e
  agent :: 'g
  replay_buffer :: "'a buffer"
  state_norm :: normalization
  reward_norm :: "running_stat option"
  reward_scaling :: "reward_scaling_state option"
  total_steps :: int
  prev_total_steps :: int
  max_reward :: "real option"
  cur_s :: vec
  episode_steps :: int
  episode_reward :: real
  cur_done :: bool
  journal :: "('a, 'p) event list"

text \<open>Lines 63 to 86: the state in which the outer loop is entered.\<close>

definition main_init ::
  "args \<Rightarrow> 'e \<Rightarrow> 'e \<Rightarrow> 'g \<Rightarrow> ('e, 'g, 'a, 'p) main_state" where
  "main_init args e0 e_eval0 g0 =
     \<lparr>pc = Outer_test, env = e0, env_evaluate = e_eval0, agent = g0,
      replay_buffer = ReplayBuffer (batch_size args),
      state_norm = Normalization (state_dim args),
      reward_norm =
        (if use_reward_norm args
         then Some \<lparr>running_mean = 0, running_variance = 0, sample_count = 0\<rparr> else None),
      reward_scaling =
        (if use_reward_norm args then None
         else if use_reward_scaling args then Some (RewardScaling (gamma args)) else None),
      total_steps = 0, prev_total_steps = 0, max_reward = None,
      cur_s = [], episode_steps = 0, episode_reward = 0, cur_done = False, journal = []\<rparr>"

text \<open>
  Lines 88 to 95: the start of an episode. An exception comes with the state at the moment
  of the raise: when line 92 raises, the environment has been reset and the state
  normalized (lines 88 to 90), and lines 93 to 95 have not run.
\<close>

definition episode_start ::
  "('e, 'g, 'a, 'p) ops \<Rightarrow> args \<Rightarrow> ('e, 'g, 'a, 'p) main_state \<Rightarrow>
   (error \<times> ('e, 'g, 'a, 'p) main_state) + ('e, 'g, 'a, 'p) main_state" where
  "episode_start ops args st =
     (let (s, e') = env_reset ops (env st);
          (s, nz') = (if use_state_norm args then Normalization_call (state_norm st) s True
                      else (s, state_norm st));
          st1 = st\<lparr>env := e', state_norm := nz', cur_s := s\<rparr>
      in if use_reward_scaling args
         then (case reward_scaling st of
                 None \<Rightarrow> Inl (UnboundLocalError, st1)
               | Some rs \<Rightarrow>
                   Inr (st1\<lparr>reward_scaling := Some (RewardScaling_reset rs),
                            episode_steps := 0, episode_reward := 0, cur_done := False,
                            journal := journal st @ [Scaling_reset]\<rparr>))
         else Inr (st1\<lparr>episode_steps := 0, episode_reward := 0, cur_done := False\<rparr>))"

text \<open>Lines 103 to 106: the reward transformation, with the journal entries it makes.\<close>

definition transform_reward ::
  "args \<Rightarrow> running_stat option \<Rightarrow> reward_scaling_state option \<Rightarrow> real \<Rightarrow>
   error + (real \<times> running_stat option \<times> reward_scaling_state option \<times> ('a, 'p) event list)" where
  "transform_reward args rn rs r =
     (if use_reward_norm args
      then (case rn of
              None \<Rightarrow> Inl UnboundLocalError
            | Some n \<Rightarrow> (let (r', n') = Normalization_call1 n r True
                         in Inr (r', Some n', rs, [Reward_normalized])))
      else if use_reward_scaling args
      then (case rs of
              None \<Rightarrow> Inl UnboundLocalError
            | Some sc \<Rightarrow> (let (r', sc') = RewardScaling_call sc r
                          in Inr (r', rn, Some sc', [Reward_scaled])))
      else Inr (r, rn, rs, []))"

text \<open>
  Lines 97 to 121: one environment step and the storing of its transition. An exception
  comes with the state at the moment of the raise: at lines 104 and 106 the step counter, the
  agent, the environment, the state normalizer and \<open>done\<close> have their new values (lines 97 to
  102); at line 118 the reward has been transformed and added as well (lines 103 to 108),
  while \<open>s\<close> and \<open>total_steps\<close> are still the old ones.
\<close>

definition collect ::
  "('e, 'g, 'a, 'p) ops \<Rightarrow> args \<Rightarrow> ('e, 'g, 'a, 'p) main_state \<Rightarrow>
   (error \<times> ('e, 'g, 'a, 'p) main_state) + ('e, 'g, 'a, 'p) main_state" where
  "collect ops args st =
     (let steps = episode_steps st + 1;
          ((a, a_logprob), g') = PPO_choose_action ops (agent st) (cur_s st);
          ((s_next, r, done), e') = env_step ops (env st) a;
          (s_next, nz') = (if use_state_norm args then Normalization_call (state_norm st) s_next True
                           else (s_next, state_norm st));
          st1 = st\<lparr>env := e', agent := g', state_norm := nz', episode_steps := steps,
                   cur_done := done\<rparr>
      in case transform_reward args (reward_norm st) (reward_scaling st) r of
           Inl err \<Rightarrow> Inl (err, st1)
         | Inr (r, rn', rs', evs) \<Rightarrow>
             (let st2 = st1\<lparr>reward_norm := rn', reward_scaling := rs',
                           episode_reward := episode_reward st + r,
                           journal := journal st @ evs\<rparr>;
                  dw = (if done \<and> steps \<noteq> max_episode_steps args then True else False);
                  t = \<lparr>tr_s = cur_s st, tr_a = a, tr_a_logprob = a_logprob, tr_r = r,
                       tr_s_next = s_next, tr_dw = dw, tr_done = done\<rparr>
              in case store (replay_buffer st) t of
                   Inl err \<Rightarrow> Inl (err, st2)
                 | Inr b' \<Rightarrow>
                     Inr (st2\<lparr>pc := Update_test, replay_buffer := b',
                              total_steps := total_steps st + 1, cur_s := s_next,
                              journal := journal st @ evs @ [Stored t steps]\<rparr>)))"

text \<open>Lines 123 to 135: the update when the buffer is full, and the reset of its count.\<close>

definition train ::
  "('e, 'g, 'a, 'p) ops \<Rightarrow> args \<Rightarrow> ('e, 'g, 'a, 'p) main_state \<Rightarrow> ('e, 'g, 'a, 'p) main_state" where
  "train ops args st =
     (if count (replay_buffer st) = batch_size args
      then (let ((actor_loss, critic_loss), g') =
                  PPO_update ops (agent st) (replay_buffer st) (total_steps st)
            in st\<lparr>pc := Evaluate_test, agent := g',
                  replay_buffer := (replay_buffer st)\<lparr>count := 0\<rparr>,
                  journal := journal st @ [Updated (total_steps st)]\<rparr>)
      else st\<lparr>pc := Evaluate_test\<rparr>)"

text \<open>Lines 137 to 160: the periodic evaluation, the best-policy snapshot and the checkpoint.
  \<open>None\<close> is an evaluation that never returns.\<close>

definition evaluation ::
  "('e, 'g, 'a, 'p) ops \<Rightarrow> args \<Rightarrow> ('e, 'g, 'a, 'p) main_state \<Rightarrow>
   ('e, 'g, 'a, 'p) main_state option" where
  "evaluation ops args st =
     (if evaluate_freq args \<le> real_of_int (total_steps st - prev_total_steps st)
      then (case evaluate_policy ops args (env_evaluate st) (agent st) (state_norm st) of
              None \<Rightarrow> None
            | Some ((reward, len), nz', e') \<Rightarrow>
                (let best = (case max_reward st of None \<Rightarrow> True | Some m \<Rightarrow> m \<le> reward)
                 in Some (st\<lparr>pc := Inner_test, env_evaluate := e', state_norm := nz',
                             max_reward := (if best then Some reward else max_reward st),
                             prev_total_steps := total_steps st,
                             journal := journal st
                               @ (if best then [Saved_model (actor_state_dict ops (agent st))] else [])
                               @ [Saved_checkpoint
                                    \<lparr>ckpt_total_steps = total_steps st,
                                     ckpt_actor_state_dict = actor_state_dict ops (agent st),
                                     ckpt_critic_state_dict = critic_state_dict ops (agent st),
                                     ckpt_optimizer_actor_state_dict =
                                       optimizer_actor_state_dict ops (agent st),
                                     ckpt_optimizer_critic_state_dict =
                                       optimizer_critic_state_dict ops (agent st)\<rparr>]\<rparr>)))
      else Some (st\<lparr>pc := Inner_test\<rparr>))"

text \<open>
  One step of \<open>main\<close> from a control point to the next. An exception ends the run in the
  state the block had reached when it raised; the final control points do not move.
\<close>

definition step ::
  "('e, 'g, 'a, 'p) ops \<Rightarrow> args \<Rightarrow> ('e, 'g, 'a, 'p) main_state \<Rightarrow> ('e, 'g, 'a, 'p) main_state" where
  "step ops args st =
     (case pc st of
        Outer_test \<Rightarrow>
          (if total_steps st < max_train_steps args
           then (case episode_start ops args st of
                   Inl (err, st') \<Rightarrow> st'\<lparr>pc := Raised err\<rparr>
                 | Inr st' \<Rightarrow> st'\<lparr>pc := Inner_test\<rparr>)
           else st\<lparr>pc := Returned\<rparr>)
      | Inner_test \<Rightarrow>
          (if \<not> cur_done st
           then (case collect ops args st of
                   Inl (err, st') \<Rightarrow> st'\<lparr>pc := Raised err\<rparr>
                 | Inr st' \<Rightarrow> st')
           else st\<lparr>pc := Outer_test\<rparr>)
      | Update_test \<Rightarrow> train ops args st
      | Evaluate_test \<Rightarrow>
          (case evaluation ops args st of
             None \<Rightarrow> st\<lparr>pc := Hung\<rparr>
           | Some st' \<Rightarrow> st')
      | Returned \<Rightarrow> st
      | Raised err \<Rightarrow> st
      | Hung \<Rightarrow> st)"

text \<open>The state of \<open>main\<close> after \<open>n\<close> steps.\<close>

definition run ::
  "('e, 'g, 'a, 'p) ops \<Rightarrow> args \<Rightarrow> nat \<Rightarrow> ('e, 'g, 'a, 'p) main_state \<Rightarrow> ('e, 'g, 'a, 'p) main_state" where
  "run ops args n st = (step ops args ^^ n) st"

section \<open>Notions used in the statements\<close>

subsection \<open>For the actor\<close>

text \<open>A tensor of \<open>n\<close> rows with \<open>d\<close> entries each.\<close>

definition shaped :: "nat \<Rightarrow> nat \<Rightarrow> tensor \<Rightarrow> bool" where
  "shaped n d t = (length t = n \<and> list_all (\<lambda>row. length row = d) t)"

text \<open>
  Following the words of the spec (4.4): the density of the normal distribution, and the
  log-probability of one action dimension of a squashed sample, "pre-squash log-prob
  corrected by the tanh Jacobian", \<open>log (1 - tanh(sample)\<^sup>2 + eps)\<close> with \<open>eps = 10\<^sup>-\<^sup>6\<close>.
\<close>

definition gaussian_density :: "real \<Rightarrow> real \<Rightarrow> real \<Rightarrow> real" where
  "gaussian_density m sg x = exp (- ((x - m)\<^sup>2) / (2 * sg\<^sup>2)) / (sg * sqrt (2 * pi))"

definition spec_log_prob_entry :: "real \<Rightarrow> real \<Rightarrow> real \<Rightarrow> real" where
  "spec_log_prob_entry m sg x = ln (gaussian_density m sg x) - ln (1 - (tanh x)\<^sup>2 + 1 / 10 ^ 6)"

text \<open>
  An actor with one latent feature and two action dimensions, bounded or not: on every state
  its mean is \<open>[1, 2]\<close> and its learned log-std is \<open>[0, 5]\<close>, which the clamp turns into
  \<open>[0, 1]\<close>.
\<close>

definition example_actor :: "bool \<Rightarrow> unit Stochastic_Actor" where
  "example_actor b =
     \<lparr>action_dim = 2, base = (\<lambda>_ _. [[1]]),
      means = \<lparr>weight = [[1], [2]], bias = [0, 0]\<rparr>, bounded = b,
      log_stds = \<lparr>weight = [[0], [5]], bias = [0, 0]\<rparr>, fixed_std = None\<rparr>"

subsection \<open>For the training loop\<close>

text \<open>Kinds of journal entries.\<close>

fun is_Stored :: "('a, 'p) event \<Rightarrow> bool" where
  "is_Stored (Stored t k) = True"
| "is_Stored _ = False"

fun is_Updated :: "('a, 'p) event \<Rightarrow> bool" where
  "is_Updated (Updated k) = True"
| "is_Updated _ = False"

fun is_Saved :: "('a, 'p) event \<Rightarrow> bool" where
  "is_Saved (Saved_model p) = True"
| "is_Saved (Saved_checkpoint c) = True"
| "is_Saved _ = False"

text \<open>The journal entries that lines 103 to 106 make under the flags of \<open>args\<close>.\<close>

definition reward_events :: "args \<Rightarrow> ('a, 'p) event list" where
  "reward_events args =
     (if use_reward_norm args then [Reward_normalized]
      else if use_reward_scaling args then [Reward_scaled] else [])"

text \<open>
  The reward \<open>r\<close> that line 99 receives from the environment in the state \<open>st\<close>, before
  lines 103 to 106.
\<close>

definition raw_reward :: "('e, 'g, 'a, 'p) ops \<Rightarrow> ('e, 'g, 'a, 'p) main_state \<Rightarrow> real" where
  "raw_reward ops st =
     fst (snd (fst (env_step ops (env st)
       (fst (fst (PPO_choose_action ops (agent st) (cur_s st)))))))"

text \<open>A stored transition whose \<open>dw\<close> flag is \<open>done\<close> and not at the horizon.\<close>

fun dw_recorded :: "args \<Rightarrow> ('a, 'p) event \<Rightarrow> bool" where
  "dw_recorded args (Stored t k) = (tr_dw t = (tr_done t \<and> k \<noteq> max_episode_steps args))"
| "dw_recorded args _ = True"

text \<open>
  The invariant of the buffer: its capacity is \<open>batch_size\<close>, its count is within it and
  reaches it only at the test of line 124, the stores so far are \<open>batch_size\<close> for each
  update plus the count, and \<open>total_steps\<close> counts the stores.
\<close>

definition buffer_inv :: "args \<Rightarrow> ('e, 'g, 'a, 'p) main_state \<Rightarrow> bool" where
  "buffer_inv args st =
     (capacity (replay_buffer st) = batch_size args
      \<and> count (replay_buffer st) \<le> batch_size args
      \<and> (count (replay_buffer st) = batch_size args \<longrightarrow> pc st = Update_test \<or> batch_size args = 0)
      \<and> length (filter is_Stored (journal st)) =
          batch_size args * length (filter is_Updated (journal st)) + count (replay_buffer st)
      \<and> total_steps st = int (length (filter is_Stored (journal st))))"



text \<open>The dictionary that line 152 saves.\<close>

definition checkpoint_of :: "('e, 'g, 'a, 'p) ops \<Rightarrow> ('e, 'g, 'a, 'p) main_state \<Rightarrow> 'p checkpoint" where
  "checkpoint_of ops st =
     \<lparr>ckpt_total_steps = total_steps st,
      ckpt_actor_state_dict = actor_state_dict ops (agent st),
      ckpt_critic_state_dict = critic_state_dict ops (agent st),
      ckpt_optimizer_actor_state_dict = optimizer_actor_state_dict ops (agent st),
      ckpt_optimizer_critic_state_dict = optimizer_critic_state_dict ops (agent st)\<rparr>"

text \<open>
  The test of line 140, \<^verbatim>\<open>reward >= max_reward\<close>, with \<open>None\<close> for \<^verbatim>\<open>float('-inf')\<close>; and,
  following the words of the spec (6), a reward that "is a new maximum": it exceeds the
  largest evaluation reward so far.
\<close>

definition reaches_maximum :: "real option \<Rightarrow> real \<Rightarrow> bool" where
  "reaches_maximum m reward = (case m of None \<Rightarrow> True | Some x \<Rightarrow> x \<le> reward)"

definition new_maximum :: "real option \<Rightarrow> real \<Rightarrow> bool" where
  "new_maximum m reward = (case m of None \<Rightarrow> True | Some x \<Rightarrow> x < reward)"

text \<open>
  A small world to run \<open>main\<close> in. Every episode of the environment ends at its first step
  with reward 1; the agent always chooses action 7 when it samples and action 9 when it
  evaluates, an update increments its state, and its state dictionaries are numbers derived
  from its state. The buffer holds one transition, the evaluation is due after every step and
  the horizon is one step; the three flags are the state normalization, the reward
  normalization and the reward scaling.
\<close>

definition example_ops :: "(nat, nat, nat, nat) ops" where
  "example_ops =
     \<lparr>env_reset = (\<lambda>e. ([0], 0)),
      env_step = (\<lambda>e a. (([1], 1, True), Suc e)),
      PPO_choose_action = (\<lambda>g s. ((7, 0), g)),
      PPO_evaluate = (\<lambda>g s. 9),
      PPO_update = (\<lambda>g b k. ((0, 0), Suc g)),
      actor_state_dict = (\<lambda>g. 4 * g),
      critic_state_dict = (\<lambda>g. 4 * g + 1),
      optimizer_actor_state_dict = (\<lambda>g. 4 * g + 2),
      optimizer_critic_state_dict = (\<lambda>g. 4 * g + 3)\<rparr>"

definition example_args :: "bool \<Rightarrow> bool \<Rightarrow> bool \<Rightarrow> args" where
  "example_args sn rn rs =
     \<lparr>max_train_steps = 10, evaluate_freq = 1, batch_size = 1, gamma = 1,
      use_state_norm = sn, use_reward_norm = rn, use_reward_scaling = rs,
      state_dim = 1, max_episode_steps = 1\<rparr>"

definition example_run :: "bool \<Rightarrow> bool \<Rightarrow> bool \<Rightarrow> nat \<Rightarrow> (nat, nat, nat, nat) main_state" where
  "example_run sn rn rs n =
     run example_ops (example_args sn rn rs) n (main_init (example_args sn rn rs) 0 0 0)"

text \<open>The same options with a horizon of five steps, so that the episodes end before it.\<close>

definition example_args_long :: args where
  "example_args_long = (example_args False False False)\<lparr>max_episode_steps := 5\<rparr>"

section \<open>Properties of the stochastic actor\<close>

lemma shaped_t_map2: "shaped n d a \<Longrightarrow> shaped n d b \<Longrightarrow> shaped n d (t_map2 f a b)"
  by (auto simp: shaped_def t_map2_def list_all_length)

lemma shaped_t_map: "shaped n d a \<Longrightarrow> shaped n d (t_map f a)"
  by (auto simp: shaped_def t_map_def list_all_length)

lemma t_map2_nth:
  "shaped n d a \<Longrightarrow> shaped n d b \<Longrightarrow> i < n \<Longrightarrow> j < d \<Longrightarrow> t_map2 f a b ! i ! j = f (a ! i ! j) (b ! i ! j)"
  by (auto simp: shaped_def t_map2_def list_all_length)

lemma t_map_nth:
  "shaped n d a \<Longrightarrow> i < n \<Longrightarrow> j < d \<Longrightarrow> t_map f a ! i ! j = f (a ! i ! j)"
  by (auto simp: shaped_def t_map_def list_all_length)

lemma shaped_log_prob:
  "shaped n d mu \<Longrightarrow> shaped n d sd \<Longrightarrow> shaped n d v \<Longrightarrow> shaped n d (log_prob (Normal mu sd) v)"
  by (auto simp: shaped_def log_prob_def Normal_def list_all_length)

lemma log_prob_nth:
  "shaped n d mu \<Longrightarrow> shaped n d sd \<Longrightarrow> shaped n d v \<Longrightarrow> i < n \<Longrightarrow> j < d \<Longrightarrow>
   log_prob (Normal mu sd) v ! i ! j = log_prob_entry (mu ! i ! j) (sd ! i ! j) (v ! i ! j)"
  by (auto simp: shaped_def log_prob_def Normal_def list_all_length)

lemma sum_dim1_keepdim_nth:
  "shaped n d t \<Longrightarrow> i < n \<Longrightarrow> sum_dim1_keepdim t ! i = [(\<Sum>j<d. t ! i ! j)]"
  by (auto simp: shaped_def sum_dim1_keepdim_def list_all_length sum_list_sum_nth atLeast0LessThan)

lemma log_prob_entry_density:
  "0 < sg \<Longrightarrow> log_prob_entry m sg x = ln (gaussian_density m sg x)"
  by (simp add: log_prob_entry_def gaussian_density_def ln_div ln_mult)

lemma log_prob_entry_sample:
  "0 < sg \<Longrightarrow> log_prob_entry m sg (m + e * sg) = log_prob_entry m sg m - e\<^sup>2 / 2"
  by (simp add: log_prob_entry_def power_mult_distrib)

lemma get_dist_params_mu:
  "fst (get_dist_params self state update) = Linear (means self) (base self state update)"
  by (simp add: get_dist_params_def Let_def)

text \<open>
  Claim C10. When \<open>fixed_std\<close> is \<open>None\<close>, the standard deviation returned by
  \<open>_get_dist_params\<close> is the exponential of \<open>log_stds(x)\<close> clamped to \<open>[-2, 1]\<close>, so every
  entry lies between \<open>exp (-2)\<close> and \<open>exp 1\<close> and is strictly positive, which is what the
  construction of the normal distribution needs.
\<close>

theorem std_within_clamp_range:
  assumes "fixed_std self = None"
  shows "snd (get_dist_params self state update) =
           t_map exp (t_map (\<lambda>v. clamp v (- 2) 1) (Linear (log_stds self) (base self state update)))
         \<and> (\<forall>row \<in> set (snd (get_dist_params self state update)). \<forall>v \<in> set row.
               exp (- 2) \<le> v \<and> v \<le> exp 1 \<and> 0 < v)"
  using assms by (auto simp: get_dist_params_def Let_def t_map_def clamp_def)

text \<open>
  Claim C3. For a bounded actor called with \<open>log_probs\<close>, on a batch of \<open>n\<close> rows and \<open>d\<close>
  action dimensions with positive standard deviations, the returned log-probability has one
  entry per row: the sum over the action dimensions of the logarithm of the Gaussian density
  at the pre-squash sample minus \<open>ln (1 - tanh(sample)\<^sup>2 + 10\<^sup>-\<^sup>6)\<close>. The sample is
  \<open>rsample\<close> of the distribution, whatever \<open>deterministic\<close> is.
\<close>

theorem bounded_log_prob_is_squashed_density:
  assumes b: "bounded self"
    and p: "get_dist_params self state update = (mu, sd)"
    and smu: "shaped n d mu" and ssd: "shaped n d sd" and seps: "shaped n d eps"
    and pos: "list_all (list_all (\<lambda>sg. 0 < sg)) sd"
  shows "\<exists>action lp.
           stochastic_forward self state deterministic update True eps = Action_log_prob action lp
         \<and> length lp = n
         \<and> (\<forall>i<n. lp ! i =
               [(\<Sum>j<d. spec_log_prob_entry (mu ! i ! j) (sd ! i ! j) (rsample (Normal mu sd) eps ! i ! j))])"
proof -
  let ?sample = "rsample (Normal mu sd) eps"
  let ?raw = "log_prob (Normal mu sd) ?sample"
  let ?jac = "t_map (\<lambda>x. ln ((1 - (tanh x)\<^sup>2) + 1 / 10 ^ 6)) ?sample"
  let ?lp = "t_map2 (-) ?raw ?jac"
  have ssample: "shaped n d ?sample"
    using smu ssd seps by (simp add: rsample_def Normal_def shaped_t_map2)
  have slp0: "shaped n d ?raw" using smu ssd ssample by (rule shaped_log_prob)
  have sjac: "shaped n d ?jac" using ssample by (rule shaped_t_map)
  have slp: "shaped n d ?lp" using slp0 sjac by (rule shaped_t_map2)
  have fw: "stochastic_forward self state deterministic update True eps =
              Action_log_prob (if deterministic then t_map tanh mu else t_map tanh ?sample)
                (sum_dim1_keepdim ?lp)"
    unfolding stochastic_forward_def Let_def p using b by simp
  have len: "length (sum_dim1_keepdim ?lp) = n"
    using slp by (simp add: sum_dim1_keepdim_def shaped_def)
  have entry: "?lp ! i ! j = spec_log_prob_entry (mu ! i ! j) (sd ! i ! j) (?sample ! i ! j)"
    if "i < n" "j < d" for i j
  proof -
    have "0 < sd ! i ! j"
      using pos ssd that by (auto simp: shaped_def list_all_length)
    then have "log_prob_entry (mu ! i ! j) (sd ! i ! j) (?sample ! i ! j) =
                 ln (gaussian_density (mu ! i ! j) (sd ! i ! j) (?sample ! i ! j))"
      by (rule log_prob_entry_density)
    moreover have "?lp ! i ! j = ?raw ! i ! j - ?jac ! i ! j"
      using slp0 sjac that by (rule t_map2_nth)
    moreover have "?raw ! i ! j = log_prob_entry (mu ! i ! j) (sd ! i ! j) (?sample ! i ! j)"
      using smu ssd ssample that by (rule log_prob_nth)
    moreover have "?jac ! i ! j = ln ((1 - (tanh (?sample ! i ! j))\<^sup>2) + 1 / 10 ^ 6)"
      using ssample that by (rule t_map_nth)
    ultimately show ?thesis
      by (simp only: spec_log_prob_entry_def)
  qed
  have row: "sum_dim1_keepdim ?lp ! i =
               [(\<Sum>j<d. spec_log_prob_entry (mu ! i ! j) (sd ! i ! j) (?sample ! i ! j))]"
    if "i < n" for i
  proof -
    have "sum_dim1_keepdim ?lp ! i = [(\<Sum>j<d. ?lp ! i ! j)]"
      using slp that by (rule sum_dim1_keepdim_nth)
    also have "(\<Sum>j<d. ?lp ! i ! j) =
                 (\<Sum>j<d. spec_log_prob_entry (mu ! i ! j) (sd ! i ! j) (?sample ! i ! j))"
      by (rule sum.cong) (simp_all only: entry [OF that] lessThan_iff)
    finally show ?thesis .
  qed
  show ?thesis using fw len row by blast
qed

lemma example_params:
  "get_dist_params (example_actor b) () u = ([[1, 2]], [[1, exp 1]])"
  by (simp add: get_dist_params_def example_actor_def Linear_def linear_row_def t_map_def clamp_def)

theorem std_within_clamp_range_witness:
  "fixed_std (example_actor True) = None
   \<and> snd (get_dist_params (example_actor True) () False) = [[1, exp 1]]
   \<and> exp (- 2) \<le> (1::real) \<and> (1::real) \<le> exp 1 \<and> exp (- 2) \<le> exp (1::real) \<and> (0::real) < exp 1"
proof -
  have h: "fixed_std (example_actor True) = None" by (simp add: example_actor_def)
  show ?thesis
    using h std_within_clamp_range [OF h, of "()" False] by (simp add: example_params)
qed

theorem bounded_log_prob_is_squashed_density_witness:
  "bounded (example_actor True)
   \<and> get_dist_params (example_actor True) () False = ([[1, 2]], [[1, exp 1]])
   \<and> shaped 1 2 [[1, 2]] \<and> shaped 1 2 [[1, exp (1::real)]] \<and> shaped 1 2 [[1, 0]]
   \<and> list_all (list_all (\<lambda>sg. 0 < sg)) [[1, exp (1::real)]]
   \<and> (\<exists>action. stochastic_forward (example_actor True) () False False True [[1, 0]] =
         Action_log_prob action
           [[spec_log_prob_entry 1 1 2 + spec_log_prob_entry 2 (exp 1) 2]])"
proof -
  have b: "bounded (example_actor True)" by (simp add: example_actor_def)
  have p: "get_dist_params (example_actor True) () False = ([[1, 2]], [[1, exp 1]])"
    by (rule example_params)
  have s1: "shaped 1 2 [[1, 2]]" and s2: "shaped 1 2 [[1, exp (1::real)]]" and s3: "shaped 1 2 [[1, 0]]"
    by (simp_all add: shaped_def)
  have pos: "list_all (list_all (\<lambda>sg. 0 < sg)) [[1, exp (1::real)]]" by simp
  have smp: "rsample (Normal [[1, 2]] [[1, exp 1]]) [[1, 0]] = [[2, 2]]"
    by (simp add: rsample_def Normal_def t_map2_def)
  from bounded_log_prob_is_squashed_density [OF b p s1 s2 s3 pos, of False] obtain action lp where
    fw: "stochastic_forward (example_actor True) () False False True [[1, 0]] = Action_log_prob action lp"
    and len: "length lp = 1"
    and row: "\<forall>i<1. lp ! i = [(\<Sum>j<2. spec_log_prob_entry ([[1, 2]] ! i ! j) ([[1, exp 1]] ! i ! j)
                 (rsample (Normal [[1, 2]] [[1, exp 1]]) [[1, 0]] ! i ! j))]"
    by blast
  from row have "lp ! 0 = [spec_log_prob_entry 1 1 2 + spec_log_prob_entry 2 (exp 1) 2]"
    by (simp add: smp lessThan_Suc numeral_2_eq_2)
  with len have "lp = [[spec_log_prob_entry 1 1 2 + spec_log_prob_entry 2 (exp 1) 2]]"
    by (cases lp) simp_all
  with fw b p s1 s2 s3 pos show ?thesis by blast
qed

text \<open>
  Claim C9. With \<open>deterministic\<close> and \<open>log_probs\<close> both set, the returned action is the
  mean (squashed by \<open>tanh\<close> for a bounded actor), while the returned log-probability is the
  one the stochastic call returns for the same noise: it is evaluated at the drawn sample
  \<open>mu + eps * sd\<close>. On a batch of \<open>n\<close> rows and \<open>d\<close> action dimensions with positive standard
  deviations its entry for a row is the Gaussian log-probability of the mean, summed over the
  action dimensions, minus half the squared norm of the noise of the row, and for a bounded
  actor minus the sum of \<open>ln (1 - tanh(sample)\<^sup>2 + 10\<^sup>-\<^sup>6)\<close> taken at the sample, not
  at the mean. For an unbounded actor it is therefore the log-probability of the returned
  action only when the noise of the row is zero.
\<close>

theorem deterministic_log_prob_is_of_sample:
  assumes p: "get_dist_params self state update = (mu, sd)"
  shows "\<exists>lp.
      stochastic_forward self state True update True eps =
        Action_log_prob (if bounded self then t_map tanh mu else mu) lp
    \<and> stochastic_forward self state False update True eps =
        Action_log_prob (if bounded self then t_map tanh (rsample (Normal mu sd) eps)
                         else rsample (Normal mu sd) eps) lp
    \<and> (shaped n d mu \<and> shaped n d sd \<and> shaped n d eps
         \<and> list_all (list_all (\<lambda>sg. 0 < sg)) sd \<longrightarrow>
       length lp = n \<and>
       (\<forall>i<n. lp ! i =
          [(\<Sum>j<d. log_prob (Normal mu sd) mu ! i ! j) - (\<Sum>j<d. (eps ! i ! j)\<^sup>2) / 2
           - (if bounded self
              then (\<Sum>j<d. ln (1 - (tanh (mu ! i ! j + eps ! i ! j * sd ! i ! j))\<^sup>2 + 1 / 10 ^ 6))
              else 0)]))"
proof -
  let ?sample = "rsample (Normal mu sd) eps"
  let ?raw = "log_prob (Normal mu sd) ?sample"
  let ?jac = "t_map (\<lambda>x. ln ((1 - (tanh x)\<^sup>2) + 1 / 10 ^ 6)) ?sample"
  let ?lp = "if bounded self then t_map2 (-) ?raw ?jac else ?raw"
  have det: "stochastic_forward self state True update True eps =
               Action_log_prob (if bounded self then t_map tanh mu else mu) (sum_dim1_keepdim ?lp)"
    unfolding stochastic_forward_def Let_def p by simp
  have sto: "stochastic_forward self state False update True eps =
               Action_log_prob (if bounded self then t_map tanh ?sample else ?sample)
                 (sum_dim1_keepdim ?lp)"
    unfolding stochastic_forward_def Let_def p by simp
  have rows: "length (sum_dim1_keepdim ?lp) = n \<and>
       (\<forall>i<n. sum_dim1_keepdim ?lp ! i =
          [(\<Sum>j<d. log_prob (Normal mu sd) mu ! i ! j) - (\<Sum>j<d. (eps ! i ! j)\<^sup>2) / 2
           - (if bounded self
              then (\<Sum>j<d. ln (1 - (tanh (mu ! i ! j + eps ! i ! j * sd ! i ! j))\<^sup>2 + 1 / 10 ^ 6))
              else 0)])"
    if smu: "shaped n d mu" and ssd: "shaped n d sd"
      and seps: "shaped n d eps" and pos: "list_all (list_all (\<lambda>sg. 0 < sg)) sd"
  proof -
    have ssample: "shaped n d ?sample"
      using smu ssd seps by (simp add: rsample_def Normal_def shaped_t_map2)
    have sraw: "shaped n d ?raw" using smu ssd ssample by (rule shaped_log_prob)
    have sjac: "shaped n d ?jac" using ssample by (rule shaped_t_map)
    have slp: "shaped n d ?lp" using sraw sjac by (simp add: shaped_t_map2)
    have smp: "?sample ! i ! j = mu ! i ! j + eps ! i ! j * sd ! i ! j"
      if "i < n" "j < d" for i j
      using smu ssd seps that
      by (simp add: rsample_def Normal_def t_map2_nth shaped_t_map2)
    have raw: "?raw ! i ! j = log_prob (Normal mu sd) mu ! i ! j - (eps ! i ! j)\<^sup>2 / 2"
      if i: "i < n" and j: "j < d" for i j
    proof -
      have sg: "0 < sd ! i ! j"
        using pos ssd i j by (auto simp: shaped_def list_all_length)
      have "?raw ! i ! j = log_prob_entry (mu ! i ! j) (sd ! i ! j) (?sample ! i ! j)"
        using smu ssd ssample i j by (rule log_prob_nth)
      moreover have "log_prob (Normal mu sd) mu ! i ! j =
                       log_prob_entry (mu ! i ! j) (sd ! i ! j) (mu ! i ! j)"
        using smu ssd smu i j by (rule log_prob_nth)
      ultimately show ?thesis
        using log_prob_entry_sample [OF sg] smp [OF i j] by simp
    qed
    have jac: "?jac ! i ! j = ln (1 - (tanh (mu ! i ! j + eps ! i ! j * sd ! i ! j))\<^sup>2 + 1 / 10 ^ 6)"
      if i: "i < n" and j: "j < d" for i j
    proof -
      have "?jac ! i ! j = ln ((1 - (tanh (?sample ! i ! j))\<^sup>2) + 1 / 10 ^ 6)"
        using ssample i j by (rule t_map_nth)
      then show ?thesis by (simp only: smp [OF i j])
    qed
    have entry: "?lp ! i ! j =
        log_prob (Normal mu sd) mu ! i ! j - (eps ! i ! j)\<^sup>2 / 2
        - (if bounded self
           then ln (1 - (tanh (mu ! i ! j + eps ! i ! j * sd ! i ! j))\<^sup>2 + 1 / 10 ^ 6) else 0)"
      if i: "i < n" and j: "j < d" for i j
    proof (cases "bounded self")
      case True
      have "t_map2 (-) ?raw ?jac ! i ! j = ?raw ! i ! j - ?jac ! i ! j"
        using sraw sjac i j by (rule t_map2_nth)
      with True show ?thesis by (simp only: raw [OF i j] jac [OF i j] if_True)
    next
      case False
      then show ?thesis by (simp add: raw [OF i j])
    qed
    have row: "sum_dim1_keepdim ?lp ! i =
          [(\<Sum>j<d. log_prob (Normal mu sd) mu ! i ! j) - (\<Sum>j<d. (eps ! i ! j)\<^sup>2) / 2
           - (if bounded self
              then (\<Sum>j<d. ln (1 - (tanh (mu ! i ! j + eps ! i ! j * sd ! i ! j))\<^sup>2 + 1 / 10 ^ 6))
              else 0)]"
      if i: "i < n" for i
    proof -
      have "sum_dim1_keepdim ?lp ! i = [(\<Sum>j<d. ?lp ! i ! j)]"
        using slp i by (rule sum_dim1_keepdim_nth)
      also have "(\<Sum>j<d. ?lp ! i ! j) =
          (\<Sum>j<d. log_prob (Normal mu sd) mu ! i ! j - (eps ! i ! j)\<^sup>2 / 2
             - (if bounded self
                then ln (1 - (tanh (mu ! i ! j + eps ! i ! j * sd ! i ! j))\<^sup>2 + 1 / 10 ^ 6)
                else 0))"
        by (rule sum.cong) (simp_all only: entry [OF i] lessThan_iff)
      also have "\<dots> = (\<Sum>j<d. log_prob (Normal mu sd) mu ! i ! j) - (\<Sum>j<d. (eps ! i ! j)\<^sup>2) / 2
           - (if bounded self
              then (\<Sum>j<d. ln (1 - (tanh (mu ! i ! j + eps ! i ! j * sd ! i ! j))\<^sup>2 + 1 / 10 ^ 6))
              else 0)"
        by (simp add: sum_subtractf sum_divide_distrib)
      finally show ?thesis .
    qed
    have "length (sum_dim1_keepdim ?lp) = n"
      using slp by (simp add: sum_dim1_keepdim_def shaped_def)
    with row show ?thesis by blast
  qed
  have shape: "shaped n d mu \<and> shaped n d sd \<and> shaped n d eps
         \<and> list_all (list_all (\<lambda>sg. 0 < sg)) sd \<longrightarrow>
       length (sum_dim1_keepdim ?lp) = n \<and>
       (\<forall>i<n. sum_dim1_keepdim ?lp ! i =
          [(\<Sum>j<d. log_prob (Normal mu sd) mu ! i ! j) - (\<Sum>j<d. (eps ! i ! j)\<^sup>2) / 2
           - (if bounded self
              then (\<Sum>j<d. ln (1 - (tanh (mu ! i ! j + eps ! i ! j * sd ! i ! j))\<^sup>2 + 1 / 10 ^ 6))
              else 0)])"
  proof
    assume h: "shaped n d mu \<and> shaped n d sd \<and> shaped n d eps
         \<and> list_all (list_all (\<lambda>sg. 0 < sg)) sd"
    from h have 1: "shaped n d mu" and 2: "shaped n d sd" and 3: "shaped n d eps"
      and 4: "list_all (list_all (\<lambda>sg. 0 < sg)) sd"
      by simp_all
    from 1 2 3 4 show "length (sum_dim1_keepdim ?lp) = n \<and>
       (\<forall>i<n. sum_dim1_keepdim ?lp ! i =
          [(\<Sum>j<d. log_prob (Normal mu sd) mu ! i ! j) - (\<Sum>j<d. (eps ! i ! j)\<^sup>2) / 2
           - (if bounded self
              then (\<Sum>j<d. ln (1 - (tanh (mu ! i ! j + eps ! i ! j * sd ! i ! j))\<^sup>2 + 1 / 10 ^ 6))
              else 0)])"
      by (rule rows)
  qed
  from det sto shape show ?thesis
    by (intro exI [of _ "sum_dim1_keepdim ?lp"] conjI)
qed

theorem deterministic_log_prob_is_of_sample_witness:
  "(get_dist_params (example_actor True) () False = ([[1, 2]], [[1, exp 1]])
     \<and> bounded (example_actor True)
     \<and> (\<exists>a. sum_dim1_keepdim (log_prob (Normal [[1, 2]] [[1, exp 1]]) [[1, 2]]) = [[a]]
         \<and> stochastic_forward (example_actor True) () True False True [[1, 0]] =
             Action_log_prob [[tanh 1, tanh 2]]
               [[a - 1 / 2 - (ln (1 - (tanh 2)\<^sup>2 + 1 / 10 ^ 6)
                              + ln (1 - (tanh 2)\<^sup>2 + 1 / 10 ^ 6))]]))
   \<and> get_dist_params (example_actor False) () False = ([[1, 2]], [[1, exp 1]])
   \<and> \<not> bounded (example_actor False)
   \<and> shaped 1 2 [[1, 2]] \<and> shaped 1 2 [[1, exp (1::real)]] \<and> shaped 1 2 [[1, 0]]
   \<and> list_all (list_all (\<lambda>sg. 0 < sg)) [[1, exp (1::real)]]
   \<and> (\<exists>a. sum_dim1_keepdim (log_prob (Normal [[1, 2]] [[1, exp 1]]) [[1, 2]]) = [[a]]
         \<and> stochastic_forward (example_actor False) () True False True [[1, 0]] =
             Action_log_prob [[1, 2]] [[a - 1 / 2]])"
proof -
  have s1: "shaped 1 2 [[1, 2]]" and s2: "shaped 1 2 [[1, exp (1::real)]]" and s3: "shaped 1 2 [[1, 0]]"
    by (simp_all add: shaped_def)
  have pos: "list_all (list_all (\<lambda>sg. 0 < sg)) [[1, exp (1::real)]]" by simp
  let ?act = "log_prob (Normal [[1, 2]] [[1, exp 1]]) [[1, 2]]"
  have sact: "shaped 1 2 ?act" using s1 s2 s1 by (rule shaped_log_prob)
  have "length (sum_dim1_keepdim ?act) = 1"
    using sact by (simp add: sum_dim1_keepdim_def shaped_def)
  moreover have "sum_dim1_keepdim ?act ! 0 = [(\<Sum>j<2. ?act ! 0 ! j)]"
    using sact by (rule sum_dim1_keepdim_nth) simp
  ultimately have a: "sum_dim1_keepdim ?act = [[(\<Sum>j<2. ?act ! 0 ! j)]]"
    by (cases "sum_dim1_keepdim ?act") simp_all
  have sq: "(\<Sum>j<2. ([[1, 0 :: real]] ! 0 ! j)\<^sup>2) = 1"
    by (simp add: lessThan_Suc numeral_2_eq_2)
  have unbounded: "get_dist_params (example_actor False) () False = ([[1, 2]], [[1, exp 1]])
   \<and> \<not> bounded (example_actor False)
   \<and> shaped 1 2 [[1, 2]] \<and> shaped 1 2 [[1, exp (1::real)]] \<and> shaped 1 2 [[1, 0]]
   \<and> list_all (list_all (\<lambda>sg. 0 < sg)) [[1, exp (1::real)]]
   \<and> (\<exists>a. sum_dim1_keepdim (log_prob (Normal [[1, 2]] [[1, exp 1]]) [[1, 2]]) = [[a]]
         \<and> stochastic_forward (example_actor False) () True False True [[1, 0]] =
             Action_log_prob [[1, 2]] [[a - 1 / 2]])"
  proof -
    have p: "get_dist_params (example_actor False) () False = ([[1, 2]], [[1, exp 1]])"
      by (rule example_params)
    have nb: "\<not> bounded (example_actor False)" by (simp add: example_actor_def)
    from deterministic_log_prob_is_of_sample [OF p, of "[[1, 0]]" 1 2] nb s1 s2 s3 pos
    obtain lp where
      det: "stochastic_forward (example_actor False) () True False True [[1, 0]] =
              Action_log_prob [[1, 2]] lp"
      and len: "length lp = 1"
      and gap: "\<forall>i<1. lp ! i =
            [(\<Sum>j<2. ?act ! i ! j) - (\<Sum>j<2. ([[1, 0]] ! i ! j)\<^sup>2) / 2]"
      by auto
    from gap sq have "lp ! 0 = [(\<Sum>j<2. ?act ! 0 ! j) - 1 / 2]"
      by simp
    with len have "lp = [[(\<Sum>j<2. ?act ! 0 ! j) - 1 / 2]]"
      by (cases lp) simp_all
    with det a p nb s1 s2 s3 pos show ?thesis by blast
  qed
  have bounded: "get_dist_params (example_actor True) () False = ([[1, 2]], [[1, exp 1]])
     \<and> bounded (example_actor True)
     \<and> (\<exists>a. sum_dim1_keepdim (log_prob (Normal [[1, 2]] [[1, exp 1]]) [[1, 2]]) = [[a]]
         \<and> stochastic_forward (example_actor True) () True False True [[1, 0]] =
             Action_log_prob [[tanh 1, tanh 2]]
               [[a - 1 / 2 - (ln (1 - (tanh 2)\<^sup>2 + 1 / 10 ^ 6)
                              + ln (1 - (tanh 2)\<^sup>2 + 1 / 10 ^ 6))]])"
  proof -
    have p: "get_dist_params (example_actor True) () False = ([[1, 2]], [[1, exp 1]])"
      by (rule example_params)
    have b: "bounded (example_actor True)" by (simp add: example_actor_def)
    have tm: "t_map tanh [[1, 2 :: real]] = [[tanh 1, tanh 2]]"
      by (simp add: t_map_def)
    from deterministic_log_prob_is_of_sample [OF p, of "[[1, 0]]" 1 2] b s1 s2 s3 pos
    obtain lp where
      det: "stochastic_forward (example_actor True) () True False True [[1, 0]] =
              Action_log_prob (t_map tanh [[1, 2]]) lp"
      and len: "length lp = 1"
      and gap: "\<forall>i<1. lp ! i =
            [(\<Sum>j<2. ?act ! i ! j) - (\<Sum>j<2. ([[1, 0]] ! i ! j)\<^sup>2) / 2
             - (\<Sum>j<2. ln (1 - (tanh ([[1, 2]] ! i ! j + [[1, 0]] ! i ! j * [[1, exp 1]] ! i ! j))\<^sup>2
                            + 1 / 10 ^ 6))]"
      by auto
    have jc: "(\<Sum>j<2. ln (1 - (tanh ([[1, 2 :: real]] ! 0 ! j
                   + [[1, 0]] ! 0 ! j * [[1, exp 1]] ! 0 ! j))\<^sup>2 + 1 / 10 ^ 6)) =
          ln (1 - (tanh 2)\<^sup>2 + 1 / 10 ^ 6) + ln (1 - (tanh 2)\<^sup>2 + 1 / 10 ^ 6)"
      by (simp add: lessThan_Suc numeral_2_eq_2)
    from gap have "lp ! 0 =
            [(\<Sum>j<2. ?act ! 0 ! j) - (\<Sum>j<2. ([[1, 0]] ! 0 ! j)\<^sup>2) / 2
             - (\<Sum>j<2. ln (1 - (tanh ([[1, 2]] ! 0 ! j + [[1, 0]] ! 0 ! j * [[1, exp 1]] ! 0 ! j))\<^sup>2
                            + 1 / 10 ^ 6))]"
      by simp
    then have "lp ! 0 = [(\<Sum>j<2. ?act ! 0 ! j) - 1 / 2
        - (ln (1 - (tanh 2)\<^sup>2 + 1 / 10 ^ 6) + ln (1 - (tanh 2)\<^sup>2 + 1 / 10 ^ 6))]"
      by (simp only: sq jc)
    with len have "lp = [[(\<Sum>j<2. ?act ! 0 ! j) - 1 / 2
        - (ln (1 - (tanh 2)\<^sup>2 + 1 / 10 ^ 6) + ln (1 - (tanh 2)\<^sup>2 + 1 / 10 ^ 6))]]"
      by (cases lp) simp_all
    with det a p b tm show ?thesis by simp
  qed
  from bounded unbounded show ?thesis by (rule conjI)
qed

section \<open>Properties of the training loop\<close>

subsection \<open>The blocks of the loop\<close>

lemma run_0: "run ops args 0 st = st"
  by (simp add: run_def)

lemma run_Suc: "run ops args (Suc n) st = step ops args (run ops args n st)"
  by (simp add: run_def)

lemma run_1: "run ops args 1 st = step ops args st"
  by (simp add: run_def)

lemma run_numeral:
  "run ops args (numeral k) st = step ops args (run ops args (pred_numeral k) st)"
  by (simp add: run_def numeral_eq_Suc)

lemma reward_events_plain [simp]:
  "\<not> is_Stored ev \<and> \<not> is_Updated ev \<and> \<not> is_Saved ev \<and> dw_recorded args' ev"
  if "ev \<in> set (reward_events args)"
  using that by (auto simp: reward_events_def split: if_splits)

lemma filter_reward_events [simp]:
  "filter is_Stored (reward_events args) = []"
  "filter is_Updated (reward_events args) = []"
  "filter is_Saved (reward_events args) = []"
  by (simp_all add: reward_events_def)

lemma transform_reward_Inr:
  "transform_reward args rn rs r = Inr (r', rn', rs', evs) \<Longrightarrow>
   evs = reward_events args \<and> ((rs' = None) = (rs = None))"
  by (auto simp: transform_reward_def reward_events_def split: if_splits option.splits prod.splits)

lemma transform_reward_values:
  "transform_reward args rn rs r = Inr (r', rn', rs', evs) \<Longrightarrow>
   (if use_reward_norm args
    then (\<exists>n. rn = Some n \<and> r' = fst (Normalization_call1 n r True)
            \<and> rn' = Some (snd (Normalization_call1 n r True))) \<and> rs' = rs
    else if use_reward_scaling args
    then (\<exists>sc. rs = Some sc \<and> r' = fst (RewardScaling_call sc r)
            \<and> rs' = Some (snd (RewardScaling_call sc r))) \<and> rn' = rn
    else r' = r \<and> rn' = rn \<and> rs' = rs)"
  by (auto simp: transform_reward_def split: if_splits option.splits prod.splits)

lemma if_True_False: "(if P then True else False) = P"
  by simp

lemma collect_unfold:
  assumes "PPO_choose_action ops (agent st) (cur_s st) = ((a, lp), g')"
    and "env_step ops (env st) a = ((s1, r, d), e')"
    and "(if use_state_norm args
      then Normalization_call (state_norm st) s1 True else (s1, state_norm st)) = (s2, nz')"
  shows "collect ops args st =
    (case transform_reward args (reward_norm st) (reward_scaling st) r of
       Inl err \<Rightarrow> Inl (err, st\<lparr>env := e', agent := g', state_norm := nz',
                                episode_steps := episode_steps st + 1, cur_done := d\<rparr>)
     | Inr (r', rn', rs', evs) \<Rightarrow>
         (case store (replay_buffer st)
                 \<lparr>tr_s = cur_s st, tr_a = a, tr_a_logprob = lp, tr_r = r', tr_s_next = s2,
                  tr_dw = (d \<and> episode_steps st + 1 \<noteq> max_episode_steps args), tr_done = d\<rparr> of
            Inl err \<Rightarrow> Inl (err, st\<lparr>env := e', agent := g', state_norm := nz',
                                episode_steps := episode_steps st + 1, cur_done := d,
                                reward_norm := rn', reward_scaling := rs',
                                episode_reward := episode_reward st + r',
                                journal := journal st @ evs\<rparr>)
          | Inr b' \<Rightarrow> Inr (st\<lparr>env := e', agent := g', state_norm := nz',
                                episode_steps := episode_steps st + 1, cur_done := d,
                                reward_norm := rn', reward_scaling := rs',
                                episode_reward := episode_reward st + r',
                                journal := journal st @ evs @
                                  [Stored \<lparr>tr_s = cur_s st, tr_a = a, tr_a_logprob = lp,
                                           tr_r = r', tr_s_next = s2,
                                           tr_dw = (d \<and> episode_steps st + 1
                                                      \<noteq> max_episode_steps args),
                                           tr_done = d\<rparr> (episode_steps st + 1)],
                                pc := Update_test, replay_buffer := b',
                                total_steps := total_steps st + 1, cur_s := s2\<rparr>)))"
  using assms
  by (simp add: collect_def Let_def if_True_False split: sum.splits prod.splits
        split del: if_split)

lemma collect_Inr:
  fixes st :: "('e, 'g, 'a, 'p) main_state"
  assumes "collect ops args st = Inr st'"
  shows "\<exists>t b'. store (replay_buffer st) t = Inr b' \<and> replay_buffer st' = b'
     \<and> journal st' = journal st @ reward_events args @ [Stored t (episode_steps st + 1)]
     \<and> pc st' = Update_test
     \<and> episode_steps st' = episode_steps st + 1
     \<and> total_steps st' = total_steps st + 1
     \<and> tr_a t = fst (fst (PPO_choose_action ops (agent st) (cur_s st)))
     \<and> agent st' = snd (PPO_choose_action ops (agent st) (cur_s st))
     \<and> cur_done st' = snd (snd (fst (env_step ops (env st) (tr_a t))))
     \<and> tr_done t = cur_done st'
     \<and> tr_dw t = (cur_done st' \<and> episode_steps st' \<noteq> max_episode_steps args)
     \<and> transform_reward args (reward_norm st) (reward_scaling st)
           (fst (snd (fst (env_step ops (env st) (tr_a t))))) =
         Inr (tr_r t, reward_norm st', reward_scaling st',
              (reward_events args :: ('a, 'p) event list))
     \<and> episode_reward st' = episode_reward st + tr_r t
     \<and> ((reward_scaling st' = None) = (reward_scaling st = None))"
proof -
  obtain a lp g' where c: "PPO_choose_action ops (agent st) (cur_s st) = ((a, lp), g')"
    by (metis prod.exhaust)
  obtain s1 r d e' where e: "env_step ops (env st) a = ((s1, r, d), e')"
    by (metis prod.exhaust)
  obtain s2 nz' where n: "(if use_state_norm args
      then Normalization_call (state_norm st) s1 True else (s1, state_norm st)) = (s2, nz')"
    by (metis prod.exhaust)
  note u = assms [unfolded collect_unfold [OF c e n]]
  show ?thesis
  proof (cases "transform_reward args (reward_norm st) (reward_scaling st) r ::
      error + (real \<times> running_stat option \<times> reward_scaling_state option \<times> ('a, 'p) event list)")
    case (Inl x)
    from u show ?thesis by (simp add: Inl)
  next
    case (Inr y)
    obtain r' rn' rs' evs where y: "y = (r', rn', rs', evs)" by (metis prod.exhaust)
    note t = Inr [unfolded y]
    from transform_reward_Inr [OF t]
    have evs: "evs = reward_events args" and rs: "(rs' = None) = (reward_scaling st = None)"
      by simp_all
    let ?t = "\<lparr>tr_s = cur_s st, tr_a = a, tr_a_logprob = lp, tr_r = r', tr_s_next = s2,
               tr_dw = (d \<and> episode_steps st + 1 \<noteq> max_episode_steps args), tr_done = d\<rparr>"
    show ?thesis
    proof (cases "store (replay_buffer st) ?t")
      case (Inl z)
      from u have "(case store (replay_buffer st) ?t of
          Inl err \<Rightarrow> Inl (err, st\<lparr>env := e', agent := g', state_norm := nz',
                                episode_steps := episode_steps st + 1, cur_done := d,
                                reward_norm := rn', reward_scaling := rs',
                                episode_reward := episode_reward st + r',
                                journal := journal st @ evs\<rparr>)
        | Inr b' \<Rightarrow> Inr (st\<lparr>env := e', agent := g', state_norm := nz',
                                episode_steps := episode_steps st + 1, cur_done := d,
                                reward_norm := rn', reward_scaling := rs',
                                episode_reward := episode_reward st + r',
                                journal := journal st @ evs @ [Stored ?t (episode_steps st + 1)],
                                pc := Update_test, replay_buffer := b',
                                total_steps := total_steps st + 1, cur_s := s2\<rparr>)) = Inr st'"
        by (simp add: t)
      then show ?thesis by (simp add: Inl)
    next
      case (Inr b')
      from u have st': "st' = st\<lparr>env := e', agent := g', state_norm := nz',
                                episode_steps := episode_steps st + 1, cur_done := d,
                                reward_norm := rn', reward_scaling := rs',
                                episode_reward := episode_reward st + r',
                                journal := journal st @ evs @ [Stored ?t (episode_steps st + 1)],
                                pc := Update_test, replay_buffer := b',
                                total_steps := total_steps st + 1, cur_s := s2\<rparr>"
        by (simp add: t Inr)
      show ?thesis
        apply (rule exI [of _ ?t])
        apply (rule exI [of _ b'])
        using Inr t c e rs
        apply (simp add: st' evs)
        done
    qed
  qed
qed

lemma collect_Inl:
  fixes st :: "('e, 'g, 'a, 'p) main_state"
  assumes "collect ops args st = Inl (err, st')"
  shows "replay_buffer st' = replay_buffer st \<and> pc st' = pc st
     \<and> total_steps st' = total_steps st
     \<and> episode_steps st' = episode_steps st + 1
     \<and> agent st' = snd (PPO_choose_action ops (agent st) (cur_s st))
     \<and> (journal st' = journal st \<or> journal st' = journal st @ reward_events args)
     \<and> ((reward_scaling st' = None) = (reward_scaling st = None))"
proof -
  obtain a lp g' where c: "PPO_choose_action ops (agent st) (cur_s st) = ((a, lp), g')"
    by (metis prod.exhaust)
  obtain s1 r d e' where e: "env_step ops (env st) a = ((s1, r, d), e')"
    by (metis prod.exhaust)
  obtain s2 nz' where n: "(if use_state_norm args
      then Normalization_call (state_norm st) s1 True else (s1, state_norm st)) = (s2, nz')"
    by (metis prod.exhaust)
  note u = assms [unfolded collect_unfold [OF c e n]]
  show ?thesis
  proof (cases "transform_reward args (reward_norm st) (reward_scaling st) r ::
      error + (real \<times> running_stat option \<times> reward_scaling_state option \<times> ('a, 'p) event list)")
    case (Inl x)
    from u c show ?thesis by (auto simp: Inl)
  next
    case (Inr y)
    obtain r' rn' rs' evs where y: "y = (r', rn', rs', evs)" by (metis prod.exhaust)
    note t = Inr [unfolded y]
    from transform_reward_Inr [OF t]
    have evs: "evs = reward_events args" and rs: "(rs' = None) = (reward_scaling st = None)"
      by simp_all
    from u c rs show ?thesis
      by (auto simp: t evs split: sum.splits)
  qed
qed

lemma store_Inr:
  "store b t = Inr b' \<Longrightarrow>
   count b < capacity b \<and> count b' = count b + 1 \<and> capacity b' = capacity b
   \<and> last (items b') = t"
  by (auto simp: store_def split: if_splits)

lemma episode_start_Inr:
  assumes "episode_start ops args st = Inr st'"
  shows "replay_buffer st' = replay_buffer st \<and> pc st' = pc st
     \<and> total_steps st' = total_steps st \<and> agent st' = agent st
     \<and> episode_steps st' = 0 \<and> \<not> cur_done st'
     \<and> journal st' = journal st @ (if use_reward_scaling args then [Scaling_reset] else [])
     \<and> (if use_reward_scaling args
         then (\<exists>rs. reward_scaling st = Some rs \<and> reward_scaling st' = Some (RewardScaling_reset rs))
         else reward_scaling st' = reward_scaling st)"
  using assms
  by (auto simp: episode_start_def Let_def split: prod.splits option.splits if_splits)

lemma episode_start_Inl:
  assumes "episode_start ops args st = Inl (err, st')"
  shows "err = UnboundLocalError \<and> use_reward_scaling args \<and> reward_scaling st = None
     \<and> replay_buffer st' = replay_buffer st \<and> pc st' = pc st
     \<and> total_steps st' = total_steps st \<and> agent st' = agent st
     \<and> episode_steps st' = episode_steps st
     \<and> journal st' = journal st
     \<and> reward_scaling st' = reward_scaling st
     \<and> env st' = snd (env_reset ops (env st))"
  using assms
  by (auto simp: episode_start_def Let_def split: prod.splits option.splits if_splits)

lemma episode_start_unbound:
  "use_reward_scaling args \<Longrightarrow> reward_scaling st = None \<Longrightarrow>
   \<exists>st'. episode_start ops args st = Inl (UnboundLocalError, st')"
  by (auto simp: episode_start_def Let_def split: prod.splits)

lemma train_full:
  "count (replay_buffer st) = batch_size args \<Longrightarrow>
   journal (train ops args st) = journal st @ [Updated (total_steps st)]
   \<and> count (replay_buffer (train ops args st)) = 0
   \<and> capacity (replay_buffer (train ops args st)) = capacity (replay_buffer st)
   \<and> agent (train ops args st) =
       snd (PPO_update ops (agent st) (replay_buffer st) (total_steps st))"
  by (simp add: train_def Let_def split: prod.splits)

lemma train_not_full:
  "count (replay_buffer st) \<noteq> batch_size args \<Longrightarrow>
   train ops args st = st\<lparr>pc := Evaluate_test\<rparr>"
  by (simp add: train_def)

lemma train_other:
  "pc (train ops args st) = Evaluate_test
   \<and> total_steps (train ops args st) = total_steps st
   \<and> episode_steps (train ops args st) = episode_steps st
   \<and> reward_scaling (train ops args st) = reward_scaling st
   \<and> state_norm (train ops args st) = state_norm st"
  by (simp add: train_def Let_def split: prod.splits)

lemma evaluation_Some:
  assumes "evaluation ops args st = Some st'"
  shows "replay_buffer st' = replay_buffer st \<and> pc st' = Inner_test
     \<and> total_steps st' = total_steps st \<and> agent st' = agent st
     \<and> episode_steps st' = episode_steps st
     \<and> reward_scaling st' = reward_scaling st
     \<and> filter is_Stored (journal st') = filter is_Stored (journal st)
     \<and> filter is_Updated (journal st') = filter is_Updated (journal st)
     \<and> (list_all (dw_recorded args) (journal st') = list_all (dw_recorded args) (journal st))"
  using assms
  by (auto simp: evaluation_def Let_def split: prod.splits option.splits if_splits)

lemma Normalization_call_no_update:
  "Normalization_call nz x False = (map2 stat_normalize nz x, nz)"
  by (simp add: Normalization_call_def)

lemma evaluate_episode_done:
  "evaluate_episode se ea un ag nz e s True er el = Some (er, el, nz, e)"
  by (subst evaluate_episode.simps) simp

lemma evaluate_episode_step:
  "evaluate_episode se ea un ag nz e s False er el =
     (case se e (ea ag s) of
        ((s', r, d'), e') \<Rightarrow>
          evaluate_episode se ea un ag nz e'
            (if un then map2 stat_normalize nz s' else s') d' (er + r) (el + 1))"
  by (subst evaluate_episode.simps)
     (simp add: Let_def Normalization_call_no_update split: prod.splits)

lemma evaluate_episode_frame:
  assumes "evaluate_episode se ea un ag nz e s d er el = Some y"
  shows "fst (snd (snd y)) = nz"
proof (rule evaluate_episode.raw_induct
    [where P = "\<lambda>se ea un ag nz e s d er el y. fst (snd (snd y)) = nz", OF _ assms])
  fix rec :: "('a \<Rightarrow> 'b \<Rightarrow> (vec \<times> real \<times> bool) \<times> 'a) \<Rightarrow> ('c \<Rightarrow> vec \<Rightarrow> 'b) \<Rightarrow> bool \<Rightarrow> 'c \<Rightarrow>
      normalization \<Rightarrow> 'a \<Rightarrow> vec \<Rightarrow> bool \<Rightarrow> real \<Rightarrow> int \<Rightarrow> (real \<times> int \<times> normalization \<times> 'a) option"
  fix se ea un ag nz e s d er el y
  assume IH: "\<And>se ea un ag nz e s d er el y.
      rec se ea un ag nz e s d er el = Some y \<Longrightarrow> fst (snd (snd y)) = nz"
  assume body: "(if \<not> d
      then let a = ea ag s;
               ((s_next, r, done'), e') = se e a;
               (s_next, nz') = if un then Normalization_call nz s_next False else (s_next, nz)
           in rec se ea un ag nz' e' s_next done' (er + r) (el + 1)
      else Some (er, el, nz, e)) = Some y"
  show "fst (snd (snd y)) = nz"
  proof (cases d)
    case True
    with body show ?thesis by auto
  next
    case False
    with body obtain e' s' d' r where
      "rec se ea un ag nz e' s' d' (er + r) (el + 1) = Some y"
      by (auto simp: Let_def Normalization_call_no_update split: prod.splits if_splits)
    then show ?thesis by (rule IH)
  qed
qed

lemma evaluate_epochs_frame:
  "evaluate_epochs ops args ag k nz e reward len = Some y \<Longrightarrow> fst (snd (snd y)) = nz"
proof (induction k arbitrary: nz e reward len)
  case 0
  then show ?case by auto
next
  case (Suc k)
  then show ?case
    by (auto simp: Let_def Normalization_call_no_update
        split: prod.splits option.splits if_splits dest!: evaluate_episode_frame)
qed

lemma evaluate_policy_frame:
  "evaluate_policy ops args e ag nz = Some (res, nz', e') \<Longrightarrow> nz' = nz"
  by (auto simp: evaluate_policy_def split: option.splits dest!: evaluate_epochs_frame)

lemma step_cases [consumes 0, case_names final moved raised start collected trained evaluated]:
  obtains
    (final) "step ops args st = st" "pc st = Returned \<or> (\<exists>err. pc st = Raised err) \<or> pc st = Hung"
  | (moved) p where "step ops args st = st\<lparr>pc := p\<rparr>" "pc st \<noteq> Update_test" "p \<noteq> Inner_test"
      "p \<noteq> Update_test" "p \<noteq> Evaluate_test" "pc st = Inner_test \<longrightarrow> cur_done st"
  | (raised) err st' where "step ops args st = st'\<lparr>pc := Raised err\<rparr>"
      "pc st = Outer_test \<or> pc st = Inner_test"
      "replay_buffer st' = replay_buffer st" "total_steps st' = total_steps st"
      "journal st' = journal st \<or> journal st' = journal st @ reward_events args"
      "episode_steps st \<le> episode_steps st'"
      "(reward_scaling st' = None) = (reward_scaling st = None)"
      "pc st = Inner_test \<longrightarrow> agent st' = snd (PPO_choose_action ops (agent st) (cur_s st))"
      "pc st = Outer_test \<longrightarrow> agent st' = agent st"
      "pc st = Inner_test \<longrightarrow> \<not> cur_done st"
  | (start) st' where "pc st = Outer_test" "total_steps st < max_train_steps args"
      "episode_start ops args st = Inr st'" "step ops args st = st'\<lparr>pc := Inner_test\<rparr>"
  | (collected) st' where "pc st = Inner_test" "\<not> cur_done st" "collect ops args st = Inr st'"
      "step ops args st = st'"
  | (trained) "pc st = Update_test" "step ops args st = train ops args st"
  | (evaluated) st' where "pc st = Evaluate_test" "evaluation ops args st = Some st'"
      "step ops args st = st'"
proof (cases "pc st")
  case Outer_test
  show ?thesis
  proof (cases "total_steps st < max_train_steps args")
    case False
    with Outer_test have "step ops args st = st\<lparr>pc := Returned\<rparr>" by (simp add: step_def)
    with Outer_test show ?thesis by (intro moved [of Returned]) simp_all
  next
    case True
    show ?thesis
    proof (cases "episode_start ops args st")
      case (Inl x)
      obtain err st' where x: "x = (err, st')" by (metis prod.exhaust)
      from Outer_test True Inl x have "step ops args st = st'\<lparr>pc := Raised err\<rparr>"
        by (simp add: step_def)
      with Outer_test episode_start_Inl [OF Inl [unfolded x]] show ?thesis
        by (intro raised [of err st']) simp_all
    next
      case (Inr st')
      with Outer_test True have "step ops args st = st'\<lparr>pc := Inner_test\<rparr>" by (simp add: step_def)
      with Outer_test True Inr show ?thesis by (intro start [of st'])
    qed
  qed
next
  case Inner_test
  show ?thesis
  proof (cases "cur_done st")
    case True
    with Inner_test have "step ops args st = st\<lparr>pc := Outer_test\<rparr>" by (simp add: step_def)
    with Inner_test True show ?thesis by (intro moved [of Outer_test]) simp_all
  next
    case False
    show ?thesis
    proof (cases "collect ops args st")
      case (Inl x)
      obtain err st' where x: "x = (err, st')" by (metis prod.exhaust)
      from Inner_test False Inl x have "step ops args st = st'\<lparr>pc := Raised err\<rparr>"
        by (simp add: step_def)
      with Inner_test False collect_Inl [OF Inl [unfolded x]] show ?thesis
        by (intro raised [of err st']) simp_all
    next
      case (Inr st')
      with Inner_test False have "step ops args st = st'" by (simp add: step_def)
      with Inner_test False Inr show ?thesis by (intro collected [of st'])
    qed
  qed
next
  case Update_test
  then have "step ops args st = train ops args st" by (simp add: step_def)
  with Update_test show ?thesis by (intro trained)
next
  case Evaluate_test
  show ?thesis
  proof (cases "evaluation ops args st")
    case None
    with Evaluate_test have "step ops args st = st\<lparr>pc := Hung\<rparr>" by (simp add: step_def)
    with Evaluate_test show ?thesis by (intro moved [of Hung]) simp_all
  next
    case (Some st')
    with Evaluate_test have "step ops args st = st'" by (simp add: step_def)
    with Evaluate_test Some show ?thesis by (intro evaluated [of st'])
  qed
next
  case Returned
  then show ?thesis by (intro final) (simp_all add: step_def)
next
  case (Raised err)
  then show ?thesis by (intro final) (simp_all add: step_def)
next
  case Hung
  then show ?thesis by (intro final) (simp_all add: step_def)
qed

lemma train_journal:
  "journal (train ops args st) =
     journal st @ (if count (replay_buffer st) = batch_size args then [Updated (total_steps st)] else [])"
  by (simp add: train_def Let_def split: prod.splits)

subsection \<open>A small run\<close>

lemma evaluate_epochs_3:
  "evaluate_epochs ops args ag 3 = evaluate_epochs ops args ag (Suc (Suc (Suc 0)))"
  by (simp add: numeral_3_eq_3)

lemmas example_eval = example_run_def run_0 run_1 run_Suc run_numeral step_def main_init_def
  example_args_def example_ops_def episode_start_def collect_def train_def evaluation_def
  transform_reward_def store_def ReplayBuffer_def Normalization_def evaluate_policy_def
  evaluate_epochs_3 evaluate_episode_done evaluate_episode_step Let_def

lemma plain_2:
  "example_run False False False 2 =
     \<lparr>pc = Update_test, env = 1, env_evaluate = 0, agent = 0,
      replay_buffer = \<lparr>capacity = 1,
         items = [\<lparr>tr_s = [0], tr_a = 7, tr_a_logprob = 0, tr_r = 1, tr_s_next = [1],
                   tr_dw = False, tr_done = True\<rparr>], count = 1\<rparr>,
      state_norm = [\<lparr>running_mean = 0, running_variance = 0, sample_count = 0\<rparr>],
      reward_norm = None, reward_scaling = None,
      total_steps = 1, prev_total_steps = 0, max_reward = None,
      cur_s = [1], episode_steps = 1, episode_reward = 1, cur_done = True,
      journal = [Stored \<lparr>tr_s = [0], tr_a = 7, tr_a_logprob = 0, tr_r = 1, tr_s_next = [1],
                   tr_dw = False, tr_done = True\<rparr> 1]\<rparr>"
  by (simp add: example_eval)

lemma plain_8:
  "pc (example_run False False False 8) = Evaluate_test
   \<and> max_reward (example_run False False False 8) = Some 1
   \<and> total_steps (example_run False False False 8) = 2
   \<and> prev_total_steps (example_run False False False 8) = 1
   \<and> agent (example_run False False False 8) = 2
   \<and> env_evaluate (example_run False False False 8) = 1"
  by (simp add: example_eval)

lemma plain_8_journal:
  "journal (example_run False False False 8) =
     [Stored \<lparr>tr_s = [0], tr_a = 7, tr_a_logprob = 0, tr_r = 1, tr_s_next = [1],
        tr_dw = False, tr_done = True\<rparr> 1,
      Updated 1,
      Saved_model 4,
      Saved_checkpoint \<lparr>ckpt_total_steps = 1, ckpt_actor_state_dict = 4,
        ckpt_critic_state_dict = 5, ckpt_optimizer_actor_state_dict = 6,
        ckpt_optimizer_critic_state_dict = 7\<rparr>,
      Stored \<lparr>tr_s = [0], tr_a = 7, tr_a_logprob = 0, tr_r = 1, tr_s_next = [1],
        tr_dw = False, tr_done = True\<rparr> 1,
      Updated 2]"
  by (simp add: example_eval)


lemma normed_policy:
  "evaluate_policy example_ops (example_args True False False) 0 0 (Normalization 1) =
     Some ((1, 1), Normalization 1, 1)"
  by (simp add: example_eval Normalization_call_def)

lemma example_run_unfold:
  "example_run sn rn rs n =
     run example_ops (example_args sn rn rs) n (main_init (example_args sn rn rs) 0 0 0)"
  by (simp only: example_run_def)

lemma plain_1:
  "pc (example_run False False False 1) = Inner_test
   \<and> \<not> cur_done (example_run False False False 1)
   \<and> episode_steps (example_run False False False 1) = 0
   \<and> journal (example_run False False False 1) = []"
  by (simp add: example_eval)

lemma plain_collect:
  "collect example_ops (example_args False False False) (example_run False False False 1) =
     Inr (example_run False False False 2)"
  by (simp add: example_eval)

lemma plain_3:
  "pc (example_run False False False 3) = Evaluate_test
   \<and> max_reward (example_run False False False 3) = None
   \<and> total_steps (example_run False False False 3) = 1
   \<and> prev_total_steps (example_run False False False 3) = 0
   \<and> agent (example_run False False False 3) = 1
   \<and> env_evaluate (example_run False False False 3) = 0
   \<and> state_norm (example_run False False False 3) = Normalization 1"
  by (simp add: example_eval)

lemma normed_3:
  "pc (example_run True False False 3) = Evaluate_test
   \<and> map sample_count (state_norm (example_run True False False 3)) = [2]"
  by (simp add: example_eval Normalization_call_def stat_update_def)

lemma scaled_collect:
  "collect example_ops (example_args False False True) (example_run False False True 1) =
     Inr (example_run False False True 2)"
  by (simp add: example_eval RewardScaling_def RewardScaling_call_def RewardScaling_reset_def
      stat_update_def)

lemma scaled_1:
  "journal (example_run False False True 1) = [Scaling_reset]
   \<and> episode_steps (example_run False False True 2) = 1"
  by (simp add: example_eval RewardScaling_def RewardScaling_call_def RewardScaling_reset_def
      stat_update_def)

subsection \<open>The count of the buffer\<close>

lemma buffer_inv_init: "buffer_inv args (main_init args e0 e1 g0)"
  by (simp add: buffer_inv_def main_init_def ReplayBuffer_def)

lemma buffer_inv_step:
  assumes inv: "buffer_inv args st"
  shows "buffer_inv args (step ops args st)"
proof (cases rule: step_cases [of ops args st])
  case final
  with inv show ?thesis by simp
next
  case (moved p)
  with inv show ?thesis by (simp add: buffer_inv_def)
next
  case (raised err st')
  from raised(2) inv have c: "count (replay_buffer st) = batch_size args \<longrightarrow> batch_size args = 0"
    by (auto simp: buffer_inv_def)
  from raised(5) have
    "filter is_Stored (journal st') = filter is_Stored (journal st)
     \<and> filter is_Updated (journal st') = filter is_Updated (journal st)"
    by auto
  with raised(1,3,4) inv c show ?thesis by (simp add: buffer_inv_def)
next
  case (start st')
  with episode_start_Inr [OF start(3)] inv show ?thesis
    by (auto simp: buffer_inv_def)
next
  case (collected st')
  from collect_Inr [OF collected(3)] obtain t b' where
    s: "store (replay_buffer st) t = Inr b'" and b: "replay_buffer st' = b'"
    and j: "journal st' = journal st @ reward_events args @ [Stored t (episode_steps st + 1)]"
    and p: "pc st' = Update_test" and n: "total_steps st' = total_steps st + 1"
    by blast
  from store_Inr [OF s] b j p n inv have "buffer_inv args st'"
    by (simp add: buffer_inv_def)
  with collected show ?thesis by simp
next
  case trained
  show ?thesis
  proof (cases "count (replay_buffer st) = batch_size args")
    case True
    from train_full [OF True, of ops] train_other [of ops args st] inv True
    have "buffer_inv args (train ops args st)"
      by (simp add: buffer_inv_def)
    with trained show ?thesis by simp
  next
    case False
    with inv have "buffer_inv args (st\<lparr>pc := Evaluate_test\<rparr>)"
      by (simp add: buffer_inv_def)
    with trained False show ?thesis by (simp add: train_not_full)
  qed
next
  case (evaluated st')
  from evaluation_Some [OF evaluated(2)] evaluated(1) inv have "buffer_inv args st'"
    by (simp add: buffer_inv_def)
  with evaluated show ?thesis by simp
qed

lemma buffer_inv_run: "buffer_inv args (run ops args n (main_init args e0 e1 g0))"
  by (induction n) (simp_all add: run_0 run_Suc buffer_inv_init buffer_inv_step)

lemma step_no_update:
  assumes "\<not> (pc st = Update_test \<and> count (replay_buffer st) = batch_size args)"
  shows "filter is_Updated (journal (step ops args st)) = filter is_Updated (journal st)"
proof (cases rule: step_cases [of ops args st])
  case final
  then show ?thesis by simp
next
  case (moved p)
  then show ?thesis by simp
next
  case (raised err st')
  from raised(5) have "filter is_Updated (journal st') = filter is_Updated (journal st)"
    by auto
  with raised(1) show ?thesis by simp
next
  case (start st')
  with episode_start_Inr [OF start(3)] show ?thesis by simp
next
  case (collected st')
  with collect_Inr [OF collected(3)] show ?thesis by auto
next
  case trained
  with assms show ?thesis by (simp add: train_not_full)
next
  case (evaluated st')
  with evaluation_Some [OF evaluated(2)] show ?thesis by simp
qed

lemma step_agent:
  assumes "\<not> (pc st = Update_test \<and> count (replay_buffer st) = batch_size args)"
  shows "agent (step ops args st) =
     (if pc st = Inner_test \<and> \<not> cur_done st
      then snd (PPO_choose_action ops (agent st) (cur_s st)) else agent st)"
proof (cases rule: step_cases [of ops args st])
  case final
  then show ?thesis by auto
next
  case (moved p)
  then show ?thesis by auto
next
  case (raised err st')
  then show ?thesis by auto
next
  case (start st')
  with episode_start_Inr [OF start(3)] show ?thesis by simp
next
  case (collected st')
  with collect_Inr [OF collected(3)] show ?thesis by auto
next
  case trained
  with assms show ?thesis by (simp add: train_not_full)
next
  case (evaluated st')
  with evaluation_Some [OF evaluated(2)] show ?thesis by simp
qed

text \<open>
  Claim C1. In every state that \<open>main\<close> reaches, the count of the buffer is at most
  \<open>batch_size\<close>, and it equals \<open>batch_size\<close> only at the test of line 124, right after a store
  (or when \<open>batch_size\<close> is 0). There the step makes the one call
  \<open>agent.update(replay_buffer, total_steps)\<close> of line 125, on the full buffer and the current
  \<open>total_steps\<close>: the agent after the step is the agent that this call returns, the journal
  gets the one entry for it, and the count is left at zero. No other step calls
  \<open>agent.update\<close>: it adds no update to the journal, and the agent after it is the agent
  before it, except for the step of lines 99 to 121, whose only call on the agent is
  \<open>agent.choose_action(s)\<close>. Hence the transitions stored so far, which \<open>total_steps\<close> counts,
  number \<open>batch_size\<close> times the updates so far plus the count: an update happens each time
  \<open>total_steps\<close> reaches a multiple of \<open>batch_size\<close>.
\<close>

theorem update_exactly_when_buffer_full:
  assumes st: "st = run ops args n (main_init args e0 e1 g0)"
  shows "count (replay_buffer st) \<le> batch_size args
     \<and> capacity (replay_buffer st) = batch_size args
     \<and> length (filter is_Stored (journal st)) =
          batch_size args * length (filter is_Updated (journal st)) + count (replay_buffer st)
     \<and> total_steps st = int (length (filter is_Stored (journal st)))
     \<and> (count (replay_buffer st) = batch_size args \<longrightarrow> pc st = Update_test \<or> batch_size args = 0)
     \<and> (pc st = Update_test \<and> count (replay_buffer st) = batch_size args \<longrightarrow>
          journal (step ops args st) = journal st @ [Updated (total_steps st)]
          \<and> count (replay_buffer (step ops args st)) = 0
          \<and> agent (step ops args st) =
               snd (PPO_update ops (agent st) (replay_buffer st) (total_steps st)))
     \<and> (\<not> (pc st = Update_test \<and> count (replay_buffer st) = batch_size args) \<longrightarrow>
          filter is_Updated (journal (step ops args st)) = filter is_Updated (journal st)
          \<and> agent (step ops args st) =
               (if pc st = Inner_test \<and> \<not> cur_done st
                then snd (PPO_choose_action ops (agent st) (cur_s st)) else agent st))"
proof -
  have inv: "buffer_inv args st" unfolding st by (rule buffer_inv_run)
  have full: "journal (step ops args st) = journal st @ [Updated (total_steps st)]
          \<and> count (replay_buffer (step ops args st)) = 0
          \<and> agent (step ops args st) =
               snd (PPO_update ops (agent st) (replay_buffer st) (total_steps st))"
    if "pc st = Update_test" "count (replay_buffer st) = batch_size args"
    using that train_full [of st args ops] by (simp add: step_def)
  have rest: "filter is_Updated (journal (step ops args st)) = filter is_Updated (journal st)
          \<and> agent (step ops args st) =
               (if pc st = Inner_test \<and> \<not> cur_done st
                then snd (PPO_choose_action ops (agent st) (cur_s st)) else agent st)"
    if "\<not> (pc st = Update_test \<and> count (replay_buffer st) = batch_size args)"
    using step_no_update [OF that] step_agent [OF that] by (rule conjI)
  from inv have i: "count (replay_buffer st) \<le> batch_size args"
    "capacity (replay_buffer st) = batch_size args"
    "length (filter is_Stored (journal st)) =
          batch_size args * length (filter is_Updated (journal st)) + count (replay_buffer st)"
    "total_steps st = int (length (filter is_Stored (journal st)))"
    "count (replay_buffer st) = batch_size args \<longrightarrow> pc st = Update_test \<or> batch_size args = 0"
    by (simp_all add: buffer_inv_def)
  show ?thesis
    apply (intro conjI)
          apply (rule i(1))
         apply (rule i(2))
        apply (rule i(3))
       apply (rule i(4))
      apply (rule i(5))
     apply (rule impI)
     apply (rule full)
      apply simp
     apply simp
    apply (rule impI)
    apply (rule rest)
    apply assumption
    done
qed

theorem update_exactly_when_buffer_full_witness:
  "(example_run False False False 1 =
       run example_ops (example_args False False False) 1
         (main_init (example_args False False False) 0 0 0)
     \<and> pc (example_run False False False 1) = Inner_test
     \<and> filter is_Updated (journal (step example_ops (example_args False False False)
           (example_run False False False 1))) =
         filter is_Updated (journal (example_run False False False 1))
     \<and> agent (step example_ops (example_args False False False)
           (example_run False False False 1)) = 0)
   \<and> example_run False False False 2 =
     run example_ops (example_args False False False) 2
       (main_init (example_args False False False) 0 0 0)
   \<and> pc (example_run False False False 2) = Update_test
   \<and> count (replay_buffer (example_run False False False 2)) = 1
   \<and> batch_size (example_args False False False) = 1
   \<and> journal (step example_ops (example_args False False False) (example_run False False False 2)) =
        journal (example_run False False False 2) @ [Updated 1]
   \<and> count (replay_buffer
        (step example_ops (example_args False False False) (example_run False False False 2))) = 0
   \<and> agent (example_run False False False 2) = 0
   \<and> agent (step example_ops (example_args False False False)
        (example_run False False False 2)) = 1"
proof -
  have main: "example_run False False False 2 =
     run example_ops (example_args False False False) 2
       (main_init (example_args False False False) 0 0 0)
   \<and> pc (example_run False False False 2) = Update_test
   \<and> count (replay_buffer (example_run False False False 2)) = 1
   \<and> batch_size (example_args False False False) = 1
   \<and> journal (step example_ops (example_args False False False) (example_run False False False 2)) =
        journal (example_run False False False 2) @ [Updated 1]
   \<and> count (replay_buffer
        (step example_ops (example_args False False False) (example_run False False False 2))) = 0
   \<and> agent (example_run False False False 2) = 0
   \<and> agent (step example_ops (example_args False False False)
        (example_run False False False 2)) = 1"
  proof -
    have h: "example_run False False False 2 =
       run example_ops (example_args False False False) 2
         (main_init (example_args False False False) 0 0 0)"
      by (rule example_run_unfold)
    have p: "pc (example_run False False False 2) = Update_test"
      "count (replay_buffer (example_run False False False 2)) = 1"
      "total_steps (example_run False False False 2) = 1"
      "agent (example_run False False False 2) = 0"
      by (simp_all add: plain_2)
    have b: "batch_size (example_args False False False) = 1"
      by (simp add: example_args_def)
    have u: "snd (PPO_update example_ops 0
        (replay_buffer (example_run False False False 2)) 1) = 1"
      by (simp add: example_ops_def)
    from update_exactly_when_buffer_full [OF h] p b u h show ?thesis by simp
  qed
  have extra: "example_run False False False 1 =
       run example_ops (example_args False False False) 1
         (main_init (example_args False False False) 0 0 0)
     \<and> pc (example_run False False False 1) = Inner_test
     \<and> filter is_Updated (journal (step example_ops (example_args False False False)
           (example_run False False False 1))) =
         filter is_Updated (journal (example_run False False False 1))
     \<and> agent (step example_ops (example_args False False False)
           (example_run False False False 1)) = 0"
  proof -
    have h: "example_run False False False 1 =
       run example_ops (example_args False False False) 1
         (main_init (example_args False False False) 0 0 0)"
      by (rule example_run_unfold)
    have a: "agent (example_run False False False 1) = 0"
      by (simp add: example_eval)
    have c: "snd (PPO_choose_action example_ops 0 (cur_s (example_run False False False 1))) = 0"
      by (simp add: example_ops_def)
    from update_exactly_when_buffer_full [OF h] plain_1 a c h show ?thesis by simp
  qed
  from extra main show ?thesis by (rule conjI)
qed
subsection \<open>The flag \<open>dw\<close>\<close>

lemma dw_recorded_step:
  assumes "list_all (dw_recorded args) (journal st)"
  shows "list_all (dw_recorded args) (journal (step ops args st))"
proof (cases rule: step_cases [of ops args st])
  case final
  with assms show ?thesis by simp
next
  case (moved p)
  with assms show ?thesis by simp
next
  case (raised err st')
  from raised(5) assms have "list_all (dw_recorded args) (journal st')"
    by (auto simp: reward_events_def)
  with raised(1) show ?thesis by simp
next
  case (start st')
  with episode_start_Inr [OF start(3)] assms show ?thesis by simp
next
  case (collected st')
  with collect_Inr [OF collected(3)] assms show ?thesis
    by (auto simp: list_all_iff)
next
  case trained
  with assms show ?thesis by (simp add: train_journal)
next
  case (evaluated st')
  with evaluation_Some [OF evaluated(2)] assms show ?thesis by simp
qed

lemma dw_recorded_run:
  "list_all (dw_recorded args) (journal (run ops args n (main_init args e0 e1 g0)))"
proof (induction n)
  case 0
  show ?case by (simp add: run_0 main_init_def)
next
  case (Suc n)
  then show ?case by (simp add: run_Suc dw_recorded_step)
qed

text \<open>
  Claim C2. The transition that the loop stores carries \<open>done\<close> as the environment returned
  it, and its \<open>dw\<close> flag holds exactly when \<open>done\<close> holds and the episode step counter
  differs from \<open>max_episode_steps\<close>; an episode that ends at the horizon is stored with
  \<open>dw\<close> false. The same holds of every transition recorded in the journal of a state that
  \<open>main\<close> reaches.
\<close>

theorem dw_iff_done_before_horizon:
  assumes st: "st = run ops args n (main_init args e0 e1 g0)"
  shows "list_all (dw_recorded args) (journal st)
     \<and> (\<forall>st'. collect ops args st = Inr st' \<longrightarrow>
          (\<exists>t. journal st' = journal st @ reward_events args @ [Stored t (episode_steps st')]
             \<and> last (items (replay_buffer st')) = t
             \<and> episode_steps st' = episode_steps st + 1
             \<and> cur_done st' = snd (snd (fst (env_step ops (env st) (tr_a t))))
             \<and> tr_done t = cur_done st'
             \<and> tr_dw t = (cur_done st' \<and> episode_steps st' \<noteq> max_episode_steps args)
             \<and> (cur_done st' \<and> episode_steps st' = max_episode_steps args \<longrightarrow> \<not> tr_dw t)))"
proof -
  have "list_all (dw_recorded args) (journal st)"
    unfolding st by (rule dw_recorded_run)
  moreover have "\<exists>t. journal st' = journal st @ reward_events args @ [Stored t (episode_steps st')]
             \<and> last (items (replay_buffer st')) = t
             \<and> episode_steps st' = episode_steps st + 1
             \<and> cur_done st' = snd (snd (fst (env_step ops (env st) (tr_a t))))
             \<and> tr_done t = cur_done st'
             \<and> tr_dw t = (cur_done st' \<and> episode_steps st' \<noteq> max_episode_steps args)
             \<and> (cur_done st' \<and> episode_steps st' = max_episode_steps args \<longrightarrow> \<not> tr_dw t)"
    if c: "collect ops args st = Inr st'" for st'
  proof -
    from collect_Inr [OF c] obtain t b' where
      s: "store (replay_buffer st) t = Inr b'" and b: "replay_buffer st' = b'"
      and rest: "journal st' = journal st @ reward_events args @ [Stored t (episode_steps st + 1)]"
        "episode_steps st' = episode_steps st + 1"
        "cur_done st' = snd (snd (fst (env_step ops (env st) (tr_a t))))"
        "tr_done t = cur_done st'"
        "tr_dw t = (cur_done st' \<and> episode_steps st' \<noteq> max_episode_steps args)"
      by blast
    from store_Inr [OF s] b have "last (items (replay_buffer st')) = t" by simp
    with rest show ?thesis by auto
  qed
  ultimately show ?thesis by blast
qed

theorem dw_iff_done_before_horizon_witness:
  "(max_episode_steps example_args_long = 5
     \<and> (\<exists>st'. collect example_ops example_args_long
                 (run example_ops example_args_long 1 (main_init example_args_long 0 0 0)) = Inr st'
            \<and> episode_steps st' = 1 \<and> cur_done st'
            \<and> (\<exists>t. last (items (replay_buffer st')) = t \<and> tr_done t \<and> tr_dw t)))
   \<and> example_run False False False 1 =
     run example_ops (example_args False False False) 1
       (main_init (example_args False False False) 0 0 0)
   \<and> collect example_ops (example_args False False False) (example_run False False False 1) =
       Inr (example_run False False False 2)
   \<and> max_episode_steps (example_args False False False) = 1
   \<and> episode_steps (example_run False False False 2) = 1
   \<and> cur_done (example_run False False False 2)
   \<and> (\<exists>t. journal (example_run False False False 2) = [Stored t 1]
          \<and> last (items (replay_buffer (example_run False False False 2))) = t
          \<and> tr_done t \<and> \<not> tr_dw t)"
proof -
  have main: "example_run False False False 1 =
     run example_ops (example_args False False False) 1
       (main_init (example_args False False False) 0 0 0)
   \<and> collect example_ops (example_args False False False) (example_run False False False 1) =
       Inr (example_run False False False 2)
   \<and> max_episode_steps (example_args False False False) = 1
   \<and> episode_steps (example_run False False False 2) = 1
   \<and> cur_done (example_run False False False 2)
   \<and> (\<exists>t. journal (example_run False False False 2) = [Stored t 1]
          \<and> last (items (replay_buffer (example_run False False False 2))) = t
          \<and> tr_done t \<and> \<not> tr_dw t)"
  proof -
    have h: "example_run False False False 1 =
       run example_ops (example_args False False False) 1
         (main_init (example_args False False False) 0 0 0)"
      by (rule example_run_unfold)
    have m: "max_episode_steps (example_args False False False) = 1"
      and r: "reward_events (example_args False False False) = []"
      by (simp_all add: example_args_def reward_events_def)
    have p: "episode_steps (example_run False False False 2) = 1"
      "cur_done (example_run False False False 2)"
      by (simp_all add: plain_2)
    from dw_iff_done_before_horizon [OF h] plain_collect
    obtain t where
      "journal (example_run False False False 2) =
         journal (example_run False False False 1) @ reward_events (example_args False False False)
           @ [Stored t (episode_steps (example_run False False False 2))]"
      "last (items (replay_buffer (example_run False False False 2))) = t"
      "tr_done t = cur_done (example_run False False False 2)"
      "tr_dw t = (cur_done (example_run False False False 2)
         \<and> episode_steps (example_run False False False 2)
             \<noteq> max_episode_steps (example_args False False False))"
      by blast
    with plain_1 m r p have "journal (example_run False False False 2) = [Stored t 1]
            \<and> last (items (replay_buffer (example_run False False False 2))) = t
            \<and> tr_done t \<and> \<not> tr_dw t"
      by simp
    with h plain_collect m p show ?thesis by blast
  qed
  have extra: "max_episode_steps example_args_long = 5
     \<and> (\<exists>st'. collect example_ops example_args_long
                 (run example_ops example_args_long 1 (main_init example_args_long 0 0 0)) = Inr st'
            \<and> episode_steps st' = 1 \<and> cur_done st'
            \<and> (\<exists>t. last (items (replay_buffer st')) = t \<and> tr_done t \<and> tr_dw t))"
  proof -
    let ?st = "run example_ops example_args_long 1 (main_init example_args_long 0 0 0)"
    have m: "max_episode_steps example_args_long = 5"
      by (simp add: example_args_long_def)
    have "\<exists>st'. collect example_ops example_args_long ?st = Inr st'
            \<and> episode_steps st' = 1 \<and> cur_done st'"
      by (simp add: example_eval example_args_long_def)
    then obtain st' where c: "collect example_ops example_args_long ?st = Inr st'"
      and p: "episode_steps st' = 1" "cur_done st'"
      by blast
    have h: "?st = run example_ops example_args_long 1 (main_init example_args_long 0 0 0)"
      by (rule refl)
    from dw_iff_done_before_horizon [OF h] c
    obtain t where "last (items (replay_buffer st')) = t"
      "tr_done t = cur_done st'"
      "tr_dw t = (cur_done st' \<and> episode_steps st' \<noteq> max_episode_steps example_args_long)"
      by blast
    with p m have "\<exists>t. last (items (replay_buffer st')) = t \<and> tr_done t \<and> tr_dw t"
      by simp
    with c p m show ?thesis by blast
  qed
  from extra main show ?thesis by (rule conjI)
qed

subsection \<open>Deterministic evaluation and stochastic collection\<close>

lemma evaluate_epochs_choose_action:
  "evaluate_epochs (ops\<lparr>PPO_choose_action := f\<rparr>) args ag k nz e reward len =
   evaluate_epochs ops args ag k nz e reward len"
  by (induction k arbitrary: nz e reward len) (simp_all add: Let_def split: prod.splits option.splits)

lemma step_not_evaluate:
  assumes "pc st \<noteq> Evaluate_test"
  shows "step (ops\<lparr>PPO_evaluate := f\<rparr>) args st = step ops args st"
proof -
  have "episode_start (ops\<lparr>PPO_evaluate := f\<rparr>) args st = episode_start ops args st"
    by (simp add: episode_start_def)
  moreover have "collect (ops\<lparr>PPO_evaluate := f\<rparr>) args st = collect ops args st"
    by (simp add: collect_def)
  moreover have "train (ops\<lparr>PPO_evaluate := f\<rparr>) args st = train ops args st"
    by (simp add: train_def)
  ultimately show ?thesis using assms by (simp add: step_def split: pc.splits)
qed

text \<open>
  Claim C4. The deterministic path of \<open>stochastic_forward\<close> returns the mean of the
  distribution as the action, through \<open>tanh\<close> when the actor is bounded, with or without
  the log-probabilities. In the training loop the action of a stored transition is the one
  \<open>choose_action\<close> returned; replacing \<open>agent.evaluate\<close> by any other function changes
  neither the collection of a transition nor any step other than the evaluation of line 137,
  and replacing \<open>choose_action\<close> does not change \<open>evaluate_policy\<close>.
\<close>

theorem evaluation_takes_mean_collection_samples:
  "stochastic_forward self state True update False eps =
     Action (if bounded self then t_map tanh (fst (get_dist_params self state update))
             else fst (get_dist_params self state update))
   \<and> (\<exists>lp. stochastic_forward self state True update True eps =
         Action_log_prob (if bounded self then t_map tanh (fst (get_dist_params self state update))
                          else fst (get_dist_params self state update)) lp)
   \<and> fst (get_dist_params self state update) = Linear (means self) (base self state update)
   \<and> (\<forall>st'. collect ops args st = Inr st' \<longrightarrow>
        (\<exists>t k. last (journal st') = Stored t k
           \<and> tr_a t = fst (fst (PPO_choose_action ops (agent st) (cur_s st)))))
   \<and> (\<forall>f. collect (ops\<lparr>PPO_evaluate := f\<rparr>) args st = collect ops args st)
   \<and> (\<forall>f. pc st \<noteq> Evaluate_test \<longrightarrow> step (ops\<lparr>PPO_evaluate := f\<rparr>) args st = step ops args st)
   \<and> (\<forall>f. evaluate_policy (ops\<lparr>PPO_choose_action := f\<rparr>) args e ag nz =
           evaluate_policy ops args e ag nz)"
proof (intro conjI allI impI)
  show "stochastic_forward self state True update False eps =
     Action (if bounded self then t_map tanh (fst (get_dist_params self state update))
             else fst (get_dist_params self state update))"
    by (simp add: stochastic_forward_def Let_def split: prod.splits)
  show "\<exists>lp. stochastic_forward self state True update True eps =
         Action_log_prob (if bounded self then t_map tanh (fst (get_dist_params self state update))
                          else fst (get_dist_params self state update)) lp"
    by (simp add: stochastic_forward_def Let_def split: prod.splits)
  show "fst (get_dist_params self state update) = Linear (means self) (base self state update)"
    by (rule get_dist_params_mu)
next
  fix st'
  assume c: "collect ops args st = Inr st'"
  from collect_Inr [OF c] show "\<exists>t k. last (journal st') = Stored t k
           \<and> tr_a t = fst (fst (PPO_choose_action ops (agent st) (cur_s st)))"
    by auto
next
  fix f
  show "collect (ops\<lparr>PPO_evaluate := f\<rparr>) args st = collect ops args st"
    by (simp add: collect_def)
next
  fix f
  assume "pc st \<noteq> Evaluate_test"
  then show "step (ops\<lparr>PPO_evaluate := f\<rparr>) args st = step ops args st"
    by (rule step_not_evaluate)
next
  fix f
  show "evaluate_policy (ops\<lparr>PPO_choose_action := f\<rparr>) args e ag nz =
           evaluate_policy ops args e ag nz"
    by (simp add: evaluate_policy_def evaluate_epochs_choose_action)
qed

theorem evaluation_takes_mean_collection_samples_witness:
  "stochastic_forward (example_actor True) () True False False [[5, 5]] = Action [[tanh 1, tanh 2]]
   \<and> stochastic_forward (example_actor False) () True False False [[5, 5]] = Action [[1, 2]]
   \<and> collect example_ops (example_args False False False) (example_run False False False 1) =
       Inr (example_run False False False 2)
   \<and> (\<exists>t k. last (journal (example_run False False False 2)) = Stored t k \<and> tr_a t = 7)
   \<and> PPO_evaluate example_ops 0 [0] = 9
   \<and> collect (example_ops\<lparr>PPO_evaluate := \<lambda>g s. 7\<rparr>) (example_args False False False)
        (example_run False False False 1) =
       collect example_ops (example_args False False False) (example_run False False False 1)
   \<and> pc (example_run False False False 1) \<noteq> Evaluate_test
   \<and> step (example_ops\<lparr>PPO_evaluate := \<lambda>g s. 7\<rparr>) (example_args False False False)
        (example_run False False False 1) =
       step example_ops (example_args False False False) (example_run False False False 1)
   \<and> evaluate_policy (example_ops\<lparr>PPO_choose_action := \<lambda>g s. ((9, 0), g)\<rparr>)
        (example_args False False False) 0 0 (Normalization 1) =
       evaluate_policy example_ops (example_args False False False) 0 0 (Normalization 1)"
proof -
  let ?args = "example_args False False False"
  let ?st = "example_run False False False 1"
  have mu: "fst (get_dist_params (example_actor b) () False) = [[1, 2]]" for b
    by (simp add: example_params)
  have bd: "bounded (example_actor True)" "\<not> bounded (example_actor False)"
    by (simp_all add: example_actor_def)
  have ca: "fst (fst (PPO_choose_action example_ops (agent ?st) (cur_s ?st))) = 7"
    and ev: "PPO_evaluate example_ops 0 [0] = 9"
    by (simp_all add: example_ops_def)
  have pc: "pc ?st \<noteq> Evaluate_test" using plain_1 by simp
  note t1 = evaluation_takes_mean_collection_samples [of "example_actor True" "()" False "[[5, 5]]" example_ops ?args ?st 0 0 "Normalization 1"]
  note t2 = evaluation_takes_mean_collection_samples [of "example_actor False" "()" False "[[5, 5]]" example_ops ?args ?st 0 0 "Normalization 1"]
  from t1 mu bd have a: "stochastic_forward (example_actor True) () True False False [[5, 5]] =
      Action [[tanh 1, tanh 2]]"
    by (simp add: t_map_def)
  from t2 mu bd have b: "stochastic_forward (example_actor False) () True False False [[5, 5]] =
      Action [[1, 2]]"
    by simp
  from t1 plain_collect ca
  have c: "\<exists>t k. last (journal (example_run False False False 2)) = Stored t k \<and> tr_a t = 7"
    by auto
  from t1 have d: "collect (example_ops\<lparr>PPO_evaluate := \<lambda>g s. 7\<rparr>) ?args ?st =
       collect example_ops ?args ?st"
    by blast
  from t1 pc have e: "step (example_ops\<lparr>PPO_evaluate := \<lambda>g s. 7\<rparr>) ?args ?st =
       step example_ops ?args ?st"
    by blast
  from t1 have f: "evaluate_policy (example_ops\<lparr>PPO_choose_action := \<lambda>g s. ((9, 0), g)\<rparr>)
        ?args 0 0 (Normalization 1) =
       evaluate_policy example_ops ?args 0 0 (Normalization 1)"
    by blast
  from a b c d e f plain_collect ev pc show ?thesis by blast
qed

subsection \<open>The normalizer during evaluation\<close>

text \<open>
  Claim C5. \<open>evaluate_policy\<close> applies the state normalizer with \<open>update=False\<close> only, so a
  run of it that returns leaves the normalizer as it was: the running means, the running
  variances and the sample counts are unchanged. In \<open>main\<close> the step of line 137 therefore
  never changes \<open>state_norm\<close>, whether the evaluation runs, is skipped or never returns.
\<close>

theorem evaluate_policy_keeps_normalizer:
  "(\<forall>res nz' e'. evaluate_policy ops args e ag nz = Some (res, nz', e') \<longrightarrow>
      nz' = nz
      \<and> map running_mean nz' = map running_mean nz
      \<and> map running_variance nz' = map running_variance nz
      \<and> map sample_count nz' = map sample_count nz)
   \<and> (pc st = Evaluate_test \<longrightarrow> state_norm (step ops args st) = state_norm st)"
proof -
  have frame: "nz' = nz
      \<and> map running_mean nz' = map running_mean nz
      \<and> map running_variance nz' = map running_variance nz
      \<and> map sample_count nz' = map sample_count nz"
    if "evaluate_policy ops args e ag nz = Some (res, nz', e')" for res nz' e'
  proof -
    from that have "nz' = nz" by (rule evaluate_policy_frame)
    then show ?thesis by simp
  qed
  have main: "state_norm (step ops args st) = state_norm st" if p: "pc st = Evaluate_test"
  proof (cases "evaluation ops args st")
    case None
    with p show ?thesis by (simp add: step_def)
  next
    case (Some st')
    then have "state_norm st' = state_norm st"
      by (auto simp: evaluation_def Let_def split: if_splits option.splits prod.splits
          dest!: evaluate_policy_frame)
    with p Some show ?thesis by (simp add: step_def)
  qed
  show ?thesis
  proof (intro conjI allI impI)
    fix res nz' e'
    assume "evaluate_policy ops args e ag nz = Some (res, nz', e')"
    from frame [OF this]
    show "nz' = nz" and "map running_mean nz' = map running_mean nz"
      and "map running_variance nz' = map running_variance nz"
      and "map sample_count nz' = map sample_count nz"
      by simp_all
  next
    assume "pc st = Evaluate_test"
    then show "state_norm (step ops args st) = state_norm st" by (rule main)
  qed
qed

theorem evaluate_policy_keeps_normalizer_witness:
  "evaluate_policy example_ops (example_args True False False) 0 0 (Normalization 1) =
     Some ((1, 1), Normalization 1, 1)
   \<and> map sample_count (Normalization 1) = [0]
   \<and> pc (example_run True False False 3) = Evaluate_test
   \<and> map sample_count (state_norm (example_run True False False 3)) = [2]
   \<and> map sample_count (state_norm (step example_ops (example_args True False False)
        (example_run True False False 3))) = [2]"
proof -
  note t = evaluate_policy_keeps_normalizer [of example_ops "example_args True False False" 0 0 "Normalization 1"
      "example_run True False False 3"]
  from t normed_3
  have "state_norm (step example_ops (example_args True False False)
          (example_run True False False 3)) = state_norm (example_run True False False 3)"
    by blast
  with normed_3 normed_policy show ?thesis by (simp add: Normalization_def)
qed

subsection \<open>Reward normalization and reward scaling\<close>

lemma both_flags_first_step:
  assumes "use_reward_norm args" "use_reward_scaling args"
  shows "step ops args (main_init args e0 e1 g0) =
           (if 0 < max_train_steps args
            then (let (s, e') = env_reset ops e0;
                      (s', nz') = (if use_state_norm args
                                   then Normalization_call (Normalization (state_dim args)) s True
                                   else (s, Normalization (state_dim args)))
                  in (main_init args e0 e1 g0)
                       \<lparr>env := e', state_norm := nz', cur_s := s', pc := Raised UnboundLocalError\<rparr>)
            else (main_init args e0 e1 g0)\<lparr>pc := Returned\<rparr>)"
  using assms
  by (simp add: step_def main_init_def episode_start_def Let_def split: prod.splits)

lemma both_flags_run:
  assumes "use_reward_norm args" "use_reward_scaling args"
  shows "run ops args (Suc n) (main_init args e0 e1 g0) =
           (if 0 < max_train_steps args
            then (let (s, e') = env_reset ops e0;
                      (s', nz') = (if use_state_norm args
                                   then Normalization_call (Normalization (state_dim args)) s True
                                   else (s, Normalization (state_dim args)))
                  in (main_init args e0 e1 g0)
                       \<lparr>env := e', state_norm := nz', cur_s := s', pc := Raised UnboundLocalError\<rparr>)
            else (main_init args e0 e1 g0)\<lparr>pc := Returned\<rparr>)"
proof (induction n)
  case 0
  show ?case by (simp only: run_Suc run_0 both_flags_first_step [OF assms])
next
  case (Suc n)
  show ?case
    by (subst run_Suc) (simp add: Suc step_def Let_def split: prod.splits)
qed

lemma both_flags_untouched:
  assumes "use_reward_norm args" "use_reward_scaling args"
  shows "journal (run ops args n (main_init args e0 e1 g0)) = []
     \<and> total_steps (run ops args n (main_init args e0 e1 g0)) = 0
     \<and> reward_scaling (run ops args n (main_init args e0 e1 g0)) = None"
proof (cases n)
  case 0
  with assms show ?thesis by (simp add: run_0 main_init_def)
next
  case (Suc k)
  show ?thesis
    unfolding Suc both_flags_run [OF assms]
    using assms by (simp add: main_init_def Let_def split: prod.splits)
qed

text \<open>
  Claim C6, as the code has it. One pass through lines 99 to 118 that stores its transition
  applies at most one transformation to the reward \<open>r\<close> of line 99: with \<open>use_reward_norm\<close>
  the stored reward is \<open>reward_norm(r)\<close>, the normalizer is advanced by that one call and the
  scaling is untouched; else with \<open>use_reward_scaling\<close> the stored reward is
  \<open>reward_scaling(r)\<close>, the scaling is advanced by that one call and the normalizer is
  untouched; else the stored reward is \<open>r\<close> and neither is touched. With both flags set the
  code neither checks the configuration nor applies a transformation to any reward:
  \<open>reward_scaling\<close> is never bound (line 78 is an \<open>elif\<close>) while line 91 tests
  \<open>use_reward_scaling\<close> alone, so the first pass through lines 88 to 92 resets the
  environment, normalizes the state and then raises \<open>UnboundLocalError\<close> at line 92; the
  run ends in that state, with nothing stored and no reward seen. Only when
  \<open>max_train_steps\<close> is not positive does the run return, the loop never being entered.
\<close>

theorem reward_transformation_under_both_flags:
  "(\<forall>st st'. collect ops args st = Inr st' \<longrightarrow>
      (\<exists>t. journal st' = journal st @ reward_events args @ [Stored t (episode_steps st')]
         \<and> last (items (replay_buffer st')) = t
         \<and> episode_reward st' = episode_reward st + tr_r t
         \<and> (if use_reward_norm args
             then (\<exists>n. reward_norm st = Some n
                     \<and> tr_r t = fst (Normalization_call1 n (raw_reward ops st) True)
                     \<and> reward_norm st' = Some (snd (Normalization_call1 n (raw_reward ops st) True)))
                  \<and> reward_scaling st' = reward_scaling st
             else if use_reward_scaling args
             then (\<exists>sc. reward_scaling st = Some sc
                     \<and> tr_r t = fst (RewardScaling_call sc (raw_reward ops st))
                     \<and> reward_scaling st' = Some (snd (RewardScaling_call sc (raw_reward ops st))))
                  \<and> reward_norm st' = reward_norm st
             else tr_r t = raw_reward ops st
                  \<and> reward_norm st' = reward_norm st \<and> reward_scaling st' = reward_scaling st)))
   \<and> (use_reward_norm args \<and> use_reward_scaling args \<longrightarrow>
        (\<forall>n. run ops args (Suc n) (main_init args e0 e1 g0) =
               (if 0 < max_train_steps args
                then (let (s, e') = env_reset ops e0;
                          (s', nz') = (if use_state_norm args
                                       then Normalization_call (Normalization (state_dim args)) s True
                                       else (s, Normalization (state_dim args)))
                      in (main_init args e0 e1 g0)
                           \<lparr>env := e', state_norm := nz', cur_s := s',
                            pc := Raised UnboundLocalError\<rparr>)
                else (main_init args e0 e1 g0)\<lparr>pc := Returned\<rparr>)
             \<and> journal (run ops args n (main_init args e0 e1 g0)) = []
             \<and> total_steps (run ops args n (main_init args e0 e1 g0)) = 0
             \<and> reward_scaling (run ops args n (main_init args e0 e1 g0)) = None))"
proof -
  have one: "\<exists>t. journal st' = journal st @ reward_events args @ [Stored t (episode_steps st')]
         \<and> last (items (replay_buffer st')) = t
         \<and> episode_reward st' = episode_reward st + tr_r t
         \<and> (if use_reward_norm args
             then (\<exists>n. reward_norm st = Some n
                     \<and> tr_r t = fst (Normalization_call1 n (raw_reward ops st) True)
                     \<and> reward_norm st' = Some (snd (Normalization_call1 n (raw_reward ops st) True)))
                  \<and> reward_scaling st' = reward_scaling st
             else if use_reward_scaling args
             then (\<exists>sc. reward_scaling st = Some sc
                     \<and> tr_r t = fst (RewardScaling_call sc (raw_reward ops st))
                     \<and> reward_scaling st' = Some (snd (RewardScaling_call sc (raw_reward ops st))))
                  \<and> reward_norm st' = reward_norm st
             else tr_r t = raw_reward ops st
                  \<and> reward_norm st' = reward_norm st \<and> reward_scaling st' = reward_scaling st)"
    if c: "collect ops args st = Inr st'" for st st' :: "('a, 'b, 'c, 'd) main_state"
  proof -
    from collect_Inr [OF c] obtain t b' where
      s: "store (replay_buffer st) t = Inr b'" and b: "replay_buffer st' = b'"
      and j: "journal st' = journal st @ reward_events args @ [Stored t (episode_steps st + 1)]"
      and e: "episode_steps st' = episode_steps st + 1"
      and a: "tr_a t = fst (fst (PPO_choose_action ops (agent st) (cur_s st)))"
      and tr: "transform_reward args (reward_norm st) (reward_scaling st)
           (fst (snd (fst (env_step ops (env st) (tr_a t))))) =
         Inr (tr_r t, reward_norm st', reward_scaling st',
              (reward_events args :: ('c, 'd) event list))"
      and er: "episode_reward st' = episode_reward st + tr_r t"
      by blast
    have raw: "fst (snd (fst (env_step ops (env st) (tr_a t)))) = raw_reward ops st"
      by (simp add: raw_reward_def a)
    from store_Inr [OF s] b have l: "last (items (replay_buffer st')) = t" by simp
    from transform_reward_values [OF tr [unfolded raw]]
    have v: "if use_reward_norm args
             then (\<exists>n. reward_norm st = Some n
                     \<and> tr_r t = fst (Normalization_call1 n (raw_reward ops st) True)
                     \<and> reward_norm st' = Some (snd (Normalization_call1 n (raw_reward ops st) True)))
                  \<and> reward_scaling st' = reward_scaling st
             else if use_reward_scaling args
             then (\<exists>sc. reward_scaling st = Some sc
                     \<and> tr_r t = fst (RewardScaling_call sc (raw_reward ops st))
                     \<and> reward_scaling st' = Some (snd (RewardScaling_call sc (raw_reward ops st))))
                  \<and> reward_norm st' = reward_norm st
             else tr_r t = raw_reward ops st
                  \<and> reward_norm st' = reward_norm st \<and> reward_scaling st' = reward_scaling st" .
    from j e have j': "journal st' = journal st @ reward_events args @ [Stored t (episode_steps st')]"
      by simp
    from j' l er v show ?thesis by (intro exI [of _ t] conjI)
  qed
  show ?thesis
  proof (intro conjI allI impI)
    fix st st' :: "('a, 'b, 'c, 'd) main_state"
    assume "collect ops args st = Inr st'"
    then show "\<exists>t. journal st' = journal st @ reward_events args @ [Stored t (episode_steps st')]
         \<and> last (items (replay_buffer st')) = t
         \<and> episode_reward st' = episode_reward st + tr_r t
         \<and> (if use_reward_norm args
             then (\<exists>n. reward_norm st = Some n
                     \<and> tr_r t = fst (Normalization_call1 n (raw_reward ops st) True)
                     \<and> reward_norm st' = Some (snd (Normalization_call1 n (raw_reward ops st) True)))
                  \<and> reward_scaling st' = reward_scaling st
             else if use_reward_scaling args
             then (\<exists>sc. reward_scaling st = Some sc
                     \<and> tr_r t = fst (RewardScaling_call sc (raw_reward ops st))
                     \<and> reward_scaling st' = Some (snd (RewardScaling_call sc (raw_reward ops st))))
                  \<and> reward_norm st' = reward_norm st
             else tr_r t = raw_reward ops st
                  \<and> reward_norm st' = reward_norm st \<and> reward_scaling st' = reward_scaling st)"
      by (rule one)
  next
    fix n
    assume b: "use_reward_norm args \<and> use_reward_scaling args"
    then have b1: "use_reward_norm args" and b2: "use_reward_scaling args" by simp_all
    show "run ops args (Suc n) (main_init args e0 e1 g0) =
               (if 0 < max_train_steps args
                then (let (s, e') = env_reset ops e0;
                          (s', nz') = (if use_state_norm args
                                       then Normalization_call (Normalization (state_dim args)) s True
                                       else (s, Normalization (state_dim args)))
                      in (main_init args e0 e1 g0)
                           \<lparr>env := e', state_norm := nz', cur_s := s',
                            pc := Raised UnboundLocalError\<rparr>)
                else (main_init args e0 e1 g0)\<lparr>pc := Returned\<rparr>)"
      using b1 b2 by (rule both_flags_run)
    from both_flags_untouched [OF b1 b2, of ops n e0 e1 g0]
    show "journal (run ops args n (main_init args e0 e1 g0)) = []"
      and "total_steps (run ops args n (main_init args e0 e1 g0)) = 0"
      and "reward_scaling (run ops args n (main_init args e0 e1 g0)) = None"
      by simp_all
  qed
qed

theorem reward_transformation_under_both_flags_witness:
  "(use_reward_norm (example_args False True True)
     \<and> use_reward_scaling (example_args False True True)
     \<and> 0 < max_train_steps (example_args False True True)
     \<and> example_run False True True 3 =
          (main_init (example_args False True True) 0 0 0)
            \<lparr>env := 0, state_norm := Normalization 1, cur_s := [0],
             pc := Raised UnboundLocalError\<rparr>
     \<and> journal (example_run False True True 3) = []
     \<and> total_steps (example_run False True True 3) = 0)
   \<and> collect example_ops (example_args False False True) (example_run False False True 1) =
       Inr (example_run False False True 2)
   \<and> raw_reward example_ops (example_run False False True 1) = 1
   \<and> reward_scaling (example_run False False True 1) = Some (RewardScaling 1)
   \<and> (\<exists>t. journal (example_run False False True 2) = [Scaling_reset, Reward_scaled, Stored t 1]
         \<and> last (items (replay_buffer (example_run False False True 2))) = t
         \<and> tr_r t = fst (RewardScaling_call (RewardScaling 1) 1))
   \<and> reward_scaling (example_run False False True 2) =
        Some (snd (RewardScaling_call (RewardScaling 1) 1))
   \<and> reward_norm (example_run False False True 2) = None"
proof -
  have f: "\<not> use_reward_norm (example_args False False True)"
    "use_reward_scaling (example_args False False True)"
    "use_reward_norm (example_args False True True)"
    "use_reward_scaling (example_args False True True)"
    "0 < max_train_steps (example_args False True True)"
    "\<not> use_state_norm (example_args False True True)"
    "state_dim (example_args False True True) = 1"
    by (simp_all add: example_args_def)
  have both: "use_reward_norm (example_args False True True)
     \<and> use_reward_scaling (example_args False True True)
     \<and> 0 < max_train_steps (example_args False True True)
     \<and> example_run False True True 3 =
          (main_init (example_args False True True) 0 0 0)
            \<lparr>env := 0, state_norm := Normalization 1, cur_s := [0],
             pc := Raised UnboundLocalError\<rparr>
     \<and> journal (example_run False True True 3) = []
     \<and> total_steps (example_run False True True 3) = 0"
  proof -
    have r: "env_reset example_ops 0 = ([0], 0)" by (simp add: example_ops_def)
    have n3: "(3::nat) = Suc 2" by simp
    have fl: "use_reward_norm (example_args False True True)
        \<and> use_reward_scaling (example_args False True True)"
      using f by simp
    note inst = reward_transformation_under_both_flags
      [of example_ops "example_args False True True" 0 0 0, THEN conjunct2, rule_format, OF fl]
    from inst [of 2] f
    have "run example_ops (example_args False True True) (Suc 2)
            (main_init (example_args False True True) 0 0 0) =
          (main_init (example_args False True True) 0 0 0)
            \<lparr>env := 0, state_norm := Normalization 1, cur_s := [0],
             pc := Raised UnboundLocalError\<rparr>"
      by (simp add: r)
    then have st: "example_run False True True 3 =
          (main_init (example_args False True True) 0 0 0)
            \<lparr>env := 0, state_norm := Normalization 1, cur_s := [0],
             pc := Raised UnboundLocalError\<rparr>"
      by (simp only: example_run_unfold n3)
    from inst [of 3]
    have j: "journal (example_run False True True 3) = []"
      and t: "total_steps (example_run False True True 3) = 0"
      by (simp_all only: example_run_unfold)
    from f(3) f(4) f(5) st j t show ?thesis by (intro conjI)
  qed
  have p1: "reward_scaling (example_run False False True 1) = Some (RewardScaling 1)"
    "reward_norm (example_run False False True 1) = None"
    by (simp_all add: example_eval RewardScaling_def RewardScaling_reset_def)
  have raw: "raw_reward example_ops (example_run False False True 1) = 1"
    by (simp add: raw_reward_def example_ops_def)
  from reward_transformation_under_both_flags
    [of example_ops "example_args False False True" 0 0 0, THEN conjunct1, rule_format,
     OF scaled_collect]
  obtain t where j: "journal (example_run False False True 2) =
      journal (example_run False False True 1) @ reward_events (example_args False False True)
        @ [Stored t (episode_steps (example_run False False True 2))]"
    and l: "last (items (replay_buffer (example_run False False True 2))) = t"
    and w: "if use_reward_norm (example_args False False True)
      then (\<exists>n. reward_norm (example_run False False True 1) = Some n
              \<and> tr_r t = fst (Normalization_call1 n
                   (raw_reward example_ops (example_run False False True 1)) True)
              \<and> reward_norm (example_run False False True 2) =
                  Some (snd (Normalization_call1 n
                    (raw_reward example_ops (example_run False False True 1)) True)))
           \<and> reward_scaling (example_run False False True 2) =
               reward_scaling (example_run False False True 1)
      else if use_reward_scaling (example_args False False True)
      then (\<exists>sc. reward_scaling (example_run False False True 1) = Some sc
              \<and> tr_r t = fst (RewardScaling_call sc
                   (raw_reward example_ops (example_run False False True 1)))
              \<and> reward_scaling (example_run False False True 2) =
                  Some (snd (RewardScaling_call sc
                    (raw_reward example_ops (example_run False False True 1)))))
           \<and> reward_norm (example_run False False True 2) =
               reward_norm (example_run False False True 1)
      else tr_r t = raw_reward example_ops (example_run False False True 1)
           \<and> reward_norm (example_run False False True 2) =
               reward_norm (example_run False False True 1)
           \<and> reward_scaling (example_run False False True 2) =
               reward_scaling (example_run False False True 1)"
    by blast
  from w f have v: "\<exists>sc. reward_scaling (example_run False False True 1) = Some sc
         \<and> tr_r t = fst (RewardScaling_call sc (raw_reward example_ops (example_run False False True 1)))
         \<and> reward_scaling (example_run False False True 2) =
             Some (snd (RewardScaling_call sc (raw_reward example_ops (example_run False False True 1))))"
    and rn: "reward_norm (example_run False False True 2) = reward_norm (example_run False False True 1)"
    by simp_all
  from j scaled_1 f have j': "journal (example_run False False True 2) =
      [Scaling_reset, Reward_scaled, Stored t 1]"
    by (simp add: reward_events_def)
  from v p1 raw have v': "tr_r t = fst (RewardScaling_call (RewardScaling 1) 1)"
    "reward_scaling (example_run False False True 2) =
        Some (snd (RewardScaling_call (RewardScaling 1) 1))"
    by auto
  from j' l v' have a: "\<exists>t. journal (example_run False False True 2) =
           [Scaling_reset, Reward_scaled, Stored t 1]
         \<and> last (items (replay_buffer (example_run False False True 2))) = t
         \<and> tr_r t = fst (RewardScaling_call (RewardScaling 1) 1)"
    by blast
  from rn p1 have rn': "reward_norm (example_run False False True 2) = None" by simp
  from scaled_collect raw p1(1) a v'(2) rn'
  have one: "collect example_ops (example_args False False True) (example_run False False True 1) =
       Inr (example_run False False True 2)
   \<and> raw_reward example_ops (example_run False False True 1) = 1
   \<and> reward_scaling (example_run False False True 1) = Some (RewardScaling 1)
   \<and> (\<exists>t. journal (example_run False False True 2) = [Scaling_reset, Reward_scaled, Stored t 1]
         \<and> last (items (replay_buffer (example_run False False True 2))) = t
         \<and> tr_r t = fst (RewardScaling_call (RewardScaling 1) 1))
   \<and> reward_scaling (example_run False False True 2) =
        Some (snd (RewardScaling_call (RewardScaling 1) 1))
   \<and> reward_norm (example_run False False True 2) = None"
    by (intro conjI)
  from both one show ?thesis by (rule conjI)
qed

subsection \<open>Evaluation, snapshot and checkpoint\<close>

lemma evaluation_due:
  assumes "evaluate_freq args \<le> real_of_int (total_steps st - prev_total_steps st)"
    and "evaluate_policy ops args (env_evaluate st) (agent st) (state_norm st) =
           Some ((reward, len), nz', e')"
  shows "\<exists>st'. evaluation ops args st = Some st'
     \<and> journal st' = journal st
          @ (if reaches_maximum (max_reward st) reward
             then [Saved_model (actor_state_dict ops (agent st))] else [])
          @ [Saved_checkpoint (checkpoint_of ops st)]
     \<and> max_reward st' = (if reaches_maximum (max_reward st) reward then Some reward
                          else max_reward st)
     \<and> prev_total_steps st' = total_steps st"
  using assms
  by (simp add: evaluation_def Let_def reaches_maximum_def checkpoint_of_def)

lemma evaluation_not_due:
  "\<not> evaluate_freq args \<le> real_of_int (total_steps st - prev_total_steps st) \<Longrightarrow>
   evaluation ops args st = Some (st\<lparr>pc := Inner_test\<rparr>)"
  by (simp add: evaluation_def)

lemma step_no_save:
  assumes "pc st \<noteq> Evaluate_test"
  shows "filter is_Saved (journal (step ops args st)) = filter is_Saved (journal st)"
proof (cases rule: step_cases [of ops args st])
  case final
  then show ?thesis by simp
next
  case (moved p)
  then show ?thesis by simp
next
  case (raised err st')
  from raised(5) have "filter is_Saved (journal st') = filter is_Saved (journal st)"
    by auto
  with raised(1) show ?thesis by simp
next
  case (start st')
  with episode_start_Inr [OF start(3)] show ?thesis by simp
next
  case (collected st')
  with collect_Inr [OF collected(3)] show ?thesis by auto
next
  case trained
  then show ?thesis by (simp add: train_journal)
next
  case (evaluated st')
  with assms show ?thesis by simp
qed

text \<open>
  Claim C7, as the code has it. When the evaluation interval has passed and \<open>evaluate_policy\<close>
  returns, the step writes one checkpoint holding \<open>total_steps\<close> and the state dictionaries of
  the actor, the critic and the two optimizers; before it, the step writes the snapshot of the
  actor's state dictionary exactly when the evaluation reward is at least \<open>max_reward\<close>, the
  largest evaluation reward so far (\<open>-inf\<close> at first), which then becomes that reward. A
  reward equal to the maximum so far writes the snapshot too. When the interval has not
  passed, nothing is written, and no other step of \<open>main\<close> writes a file.
\<close>

theorem snapshot_when_reward_reaches_maximum:
  "(evaluate_freq args \<le> real_of_int (total_steps st - prev_total_steps st)
      \<and> evaluate_policy ops args (env_evaluate st) (agent st) (state_norm st) =
          Some ((reward, len), nz', e') \<longrightarrow>
      (\<exists>st'. evaluation ops args st = Some st'
         \<and> journal st' = journal st
              @ (if reaches_maximum (max_reward st) reward
                 then [Saved_model (actor_state_dict ops (agent st))] else [])
              @ [Saved_checkpoint (checkpoint_of ops st)]
         \<and> max_reward st' = (if reaches_maximum (max_reward st) reward then Some reward
                              else max_reward st)
         \<and> prev_total_steps st' = total_steps st))
   \<and> (\<not> evaluate_freq args \<le> real_of_int (total_steps st - prev_total_steps st) \<longrightarrow>
        evaluation ops args st = Some (st\<lparr>pc := Inner_test\<rparr>))
   \<and> (pc st = Evaluate_test \<longrightarrow>
        step ops args st =
          (case evaluation ops args st of None \<Rightarrow> st\<lparr>pc := Hung\<rparr> | Some st' \<Rightarrow> st'))
   \<and> (pc st \<noteq> Evaluate_test \<longrightarrow>
        filter is_Saved (journal (step ops args st)) = filter is_Saved (journal st))"
proof (intro conjI impI)
  assume "evaluate_freq args \<le> real_of_int (total_steps st - prev_total_steps st)
      \<and> evaluate_policy ops args (env_evaluate st) (agent st) (state_norm st) =
          Some ((reward, len), nz', e')"
  then have a: "evaluate_freq args \<le> real_of_int (total_steps st - prev_total_steps st)"
    and b: "evaluate_policy ops args (env_evaluate st) (agent st) (state_norm st) =
          Some ((reward, len), nz', e')"
    by simp_all
  from a b show "\<exists>st'. evaluation ops args st = Some st'
         \<and> journal st' = journal st
              @ (if reaches_maximum (max_reward st) reward
                 then [Saved_model (actor_state_dict ops (agent st))] else [])
              @ [Saved_checkpoint (checkpoint_of ops st)]
         \<and> max_reward st' = (if reaches_maximum (max_reward st) reward then Some reward
                              else max_reward st)
         \<and> prev_total_steps st' = total_steps st"
    by (rule evaluation_due)
next
  assume "\<not> evaluate_freq args \<le> real_of_int (total_steps st - prev_total_steps st)"
  then show "evaluation ops args st = Some (st\<lparr>pc := Inner_test\<rparr>)"
    by (rule evaluation_not_due)
next
  assume "pc st = Evaluate_test"
  then show "step ops args st =
          (case evaluation ops args st of None \<Rightarrow> st\<lparr>pc := Hung\<rparr> | Some st' \<Rightarrow> st')"
    by (simp add: step_def)
next
  assume "pc st \<noteq> Evaluate_test"
  then show "filter is_Saved (journal (step ops args st)) = filter is_Saved (journal st)"
    by (rule step_no_save)
qed

theorem snapshot_when_reward_reaches_maximum_witness:
  "(\<not> evaluate_freq (example_args False False False)
         \<le> real_of_int (total_steps (example_run False False False 1)
              - prev_total_steps (example_run False False False 1))
     \<and> evaluation example_ops (example_args False False False) (example_run False False False 1) =
         Some ((example_run False False False 1)\<lparr>pc := Inner_test\<rparr>)
     \<and> pc (example_run False False False 1) \<noteq> Evaluate_test
     \<and> filter is_Saved (journal (step example_ops (example_args False False False)
           (example_run False False False 1))) =
         filter is_Saved (journal (example_run False False False 1)))
   \<and> evaluate_freq (example_args False False False)
     \<le> real_of_int (total_steps (example_run False False False 3)
          - prev_total_steps (example_run False False False 3))
   \<and> evaluate_policy example_ops (example_args False False False)
        (env_evaluate (example_run False False False 3)) (agent (example_run False False False 3))
        (state_norm (example_run False False False 3)) = Some ((1, 1), Normalization 1, 1)
   \<and> pc (example_run False False False 3) = Evaluate_test
   \<and> max_reward (example_run False False False 3) = None
   \<and> journal (step example_ops (example_args False False False) (example_run False False False 3)) =
        journal (example_run False False False 3)
        @ [Saved_model 4,
           Saved_checkpoint \<lparr>ckpt_total_steps = 1, ckpt_actor_state_dict = 4,
             ckpt_critic_state_dict = 5, ckpt_optimizer_actor_state_dict = 6,
             ckpt_optimizer_critic_state_dict = 7\<rparr>]
   \<and> max_reward (step example_ops (example_args False False False)
        (example_run False False False 3)) = Some 1"
proof -
  have main: "evaluate_freq (example_args False False False)
     \<le> real_of_int (total_steps (example_run False False False 3)
          - prev_total_steps (example_run False False False 3))
   \<and> evaluate_policy example_ops (example_args False False False)
        (env_evaluate (example_run False False False 3)) (agent (example_run False False False 3))
        (state_norm (example_run False False False 3)) = Some ((1, 1), Normalization 1, 1)
   \<and> pc (example_run False False False 3) = Evaluate_test
   \<and> max_reward (example_run False False False 3) = None
   \<and> journal (step example_ops (example_args False False False) (example_run False False False 3)) =
        journal (example_run False False False 3)
        @ [Saved_model 4,
           Saved_checkpoint \<lparr>ckpt_total_steps = 1, ckpt_actor_state_dict = 4,
             ckpt_critic_state_dict = 5, ckpt_optimizer_actor_state_dict = 6,
             ckpt_optimizer_critic_state_dict = 7\<rparr>]
   \<and> max_reward (step example_ops (example_args False False False)
        (example_run False False False 3)) = Some 1"
  proof -
    let ?args = "example_args False False False"
    let ?st = "example_run False False False 3"
    have due: "evaluate_freq ?args \<le> real_of_int (total_steps ?st - prev_total_steps ?st)"
      using plain_3 by (simp add: example_args_def)
    have pol: "evaluate_policy example_ops ?args (env_evaluate ?st) (agent ?st) (state_norm ?st) =
                 Some ((1, 1), Normalization 1, 1)"
      by (simp add: example_eval)
    have ck: "checkpoint_of example_ops ?st =
                \<lparr>ckpt_total_steps = 1, ckpt_actor_state_dict = 4,
                 ckpt_critic_state_dict = 5, ckpt_optimizer_actor_state_dict = 6,
                 ckpt_optimizer_critic_state_dict = 7\<rparr>"
      using plain_3 by (simp add: checkpoint_of_def example_ops_def)
    have sd: "actor_state_dict example_ops (agent ?st) = 4"
      using plain_3 by (simp add: example_ops_def)
    have mx: "reaches_maximum (max_reward ?st) 1"
      using plain_3 by (simp add: reaches_maximum_def)
    from snapshot_when_reward_reaches_maximum [of ?args ?st example_ops 1 1 "Normalization 1" 1] due pol plain_3
    obtain st' where "evaluation example_ops ?args ?st = Some st'"
      "step example_ops ?args ?st = st'"
      "journal st' = journal ?st
         @ (if reaches_maximum (max_reward ?st) 1
            then [Saved_model (actor_state_dict example_ops (agent ?st))] else [])
         @ [Saved_checkpoint (checkpoint_of example_ops ?st)]"
      "max_reward st' = (if reaches_maximum (max_reward ?st) 1 then Some 1 else max_reward ?st)"
      by auto
    with ck sd mx due pol plain_3 show ?thesis by simp
  qed
  have extra: "\<not> evaluate_freq (example_args False False False)
         \<le> real_of_int (total_steps (example_run False False False 1)
              - prev_total_steps (example_run False False False 1))
     \<and> evaluation example_ops (example_args False False False) (example_run False False False 1) =
         Some ((example_run False False False 1)\<lparr>pc := Inner_test\<rparr>)
     \<and> pc (example_run False False False 1) \<noteq> Evaluate_test
     \<and> filter is_Saved (journal (step example_ops (example_args False False False)
           (example_run False False False 1))) =
         filter is_Saved (journal (example_run False False False 1))"
  proof -
    have nd: "\<not> evaluate_freq (example_args False False False)
         \<le> real_of_int (total_steps (example_run False False False 1)
              - prev_total_steps (example_run False False False 1))"
      by (simp add: example_eval)
    have pc: "pc (example_run False False False 1) \<noteq> Evaluate_test"
      using plain_1 by simp
    from snapshot_when_reward_reaches_maximum
      [of "example_args False False False" "example_run False False False 1" example_ops]
      nd pc
    show ?thesis by blast
  qed
  from extra main show ?thesis by (rule conjI)
qed

text \<open>
  Claim C7 as stated, with "a new maximum" and "only then", fails on a tie. The second
  evaluation of the small run returns the reward 1 again, after the first one has written
  its snapshot. It is not a new maximum, since the maximum so far is 1, and the
  snapshot is written all the same, now of the updated actor.
\<close>

theorem snapshot_written_on_tie:
  "pc (example_run False False False 8) = Evaluate_test
   \<and> evaluate_policy example_ops (example_args False False False)
        (env_evaluate (example_run False False False 8)) (agent (example_run False False False 8))
        (state_norm (example_run False False False 8)) = Some ((1, 1), Normalization 1, 1)
   \<and> max_reward (example_run False False False 8) = Some 1
   \<and> \<not> new_maximum (max_reward (example_run False False False 8)) 1
   \<and> Saved_model 4 \<in> set (journal (example_run False False False 8))
   \<and> journal (step example_ops (example_args False False False) (example_run False False False 8)) =
        journal (example_run False False False 8)
        @ [Saved_model 8,
           Saved_checkpoint \<lparr>ckpt_total_steps = 2, ckpt_actor_state_dict = 8,
             ckpt_critic_state_dict = 9, ckpt_optimizer_actor_state_dict = 10,
             ckpt_optimizer_critic_state_dict = 11\<rparr>]"
proof -
  let ?args = "example_args False False False"
  let ?st = "example_run False False False 8"
  have due: "evaluate_freq ?args \<le> real_of_int (total_steps ?st - prev_total_steps ?st)"
    using plain_8 by (simp add: example_args_def)
  have pol: "evaluate_policy example_ops ?args (env_evaluate ?st) (agent ?st) (state_norm ?st) =
               Some ((1, 1), Normalization 1, 1)"
    by (simp add: example_eval)
  from evaluation_due [OF due pol] obtain st' where e: "evaluation example_ops ?args ?st = Some st'"
    and j: "journal st' = journal ?st
       @ (if reaches_maximum (max_reward ?st) 1
          then [Saved_model (actor_state_dict example_ops (agent ?st))] else [])
       @ [Saved_checkpoint (checkpoint_of example_ops ?st)]"
    by blast
  from e plain_8 have s: "step example_ops ?args ?st = st'" by (simp add: step_def)
  have "checkpoint_of example_ops ?st =
              \<lparr>ckpt_total_steps = 2, ckpt_actor_state_dict = 8,
               ckpt_critic_state_dict = 9, ckpt_optimizer_actor_state_dict = 10,
               ckpt_optimizer_critic_state_dict = 11\<rparr>"
    using plain_8 by (simp add: checkpoint_of_def example_ops_def)
  moreover have "actor_state_dict example_ops (agent ?st) = 8"
    using plain_8 by (simp add: example_ops_def)
  moreover have "reaches_maximum (max_reward ?st) 1" "\<not> new_maximum (max_reward ?st) 1"
    using plain_8 by (simp_all add: reaches_maximum_def new_maximum_def)
  moreover have "Saved_model 4 \<in> set (journal ?st)"
    by (simp add: plain_8_journal)
  ultimately show ?thesis using j s pol plain_8 by simp
qed

subsection \<open>The reset of the reward scaling\<close>








end
